theory Spec2Isabelle
  imports Main "HOL-Library.Word"
begin

unbundle bit_operations_syntax

section \<open>Values, errors and outcomes\<close>

text \<open>
  Arguments that travel inside a wire token are JSON data.  Numbers are
  modelled as integers; an object is the list of its members in insertion
  order.  A JavaScript value at a call site is \<open>undefined\<close>, JSON data, or
  the context object of the update.
\<close>

datatype json =
    JNull
  | JBool bool
  | JNum int
  | JStr string
  | JArr "json list"
  | JObj "(string \<times> json) list"

datatype jsval = Undefined | Json json | ContextObject

text \<open>Truthiness of a value, as \<open>if (v)\<close> and \<open>v || d\<close> test it.\<close>

fun truthy :: "jsval \<Rightarrow> bool" where
  "truthy Undefined = False"
| "truthy (Json JNull) = False"
| "truthy (Json (JBool b)) = b"
| "truthy (Json (JNum n)) = (n \<noteq> 0)"
| "truthy (Json (JStr s)) = (s \<noteq> [])"
| "truthy (Json (JArr xs)) = True"
| "truthy (Json (JObj kvs)) = True"
| "truthy ContextObject = True"

text \<open>
  Everything the code throws.  \<open>UnknownCallback h\<close> is
  \<open>Error("Callback h not found in registry")\<close>, \<open>SessionCallbackNotFound k\<close> is
  \<open>Error("Session callback k not found")\<close>, \<open>AlreadyRegistered h\<close> is
  \<open>Error("Callback with hash h already registered")\<close>; \<open>TypeError\<close> and
  \<open>SyntaxError\<close> are raised by the language itself; \<open>HandlerError\<close> is an
  error object thrown by a handler body.
\<close>

datatype error =
    UnknownCallback string
  | SessionCallbackNotFound string
  | AlreadyRegistered string
  | TypeError
  | SyntaxError
  | HandlerError string

datatype outcome = Returned jsval | Threw error

section \<open>Strings\<close>

text \<open>\<open>s.split(c)\<close> without a limit: the pieces between the separators.\<close>

fun splitOn :: "char \<Rightarrow> string \<Rightarrow> string list" where
  "splitOn c [] = [[]]"
| "splitOn c (x # xs) =
     (if x = c then [] # splitOn c xs
      else (case splitOn c xs of
              [] \<Rightarrow> [[x]]
            | p # ps \<Rightarrow> (x # p) # ps))"

text \<open>\<open>s.split(c, n)\<close>: the first \<open>n\<close> pieces of the unlimited split.\<close>

definition split_limit :: "char \<Rightarrow> nat \<Rightarrow> string \<Rightarrow> string list" where
  "split_limit c n s = take n (splitOn c s)"

text \<open>\<open>s.slice(n)\<close> for a non-negative \<open>n\<close>, and \<open>s.slice(-n)\<close>.\<close>

definition slice_from :: "nat \<Rightarrow> string \<Rightarrow> string" where
  "slice_from n s = drop n s"

definition slice_last :: "nat \<Rightarrow> string \<Rightarrow> string" where
  "slice_last n s = drop (length s - n) s"

text \<open>\<open>s.toLowerCase()\<close> on the ASCII letters; every other character is kept.\<close>

definition lower_char :: "char \<Rightarrow> char" where
  "lower_char c =
     (let n = (of_char c :: nat)
      in if 65 \<le> n \<and> n \<le> 90 then char_of (n + 32) else c)"

definition toLowerCase :: "string \<Rightarrow> string" where
  "toLowerCase s = map lower_char s"

definition startsWith :: "string \<Rightarrow> string \<Rightarrow> bool" where
  "startsWith s p = (take (length p) s = p)"

text \<open>Decimal text of a number, as \<open>String(n)\<close> gives it for an integer.\<close>

definition digit_char :: "nat \<Rightarrow> char" where
  "digit_char d = char_of (48 + d)"

function show_nat :: "nat \<Rightarrow> string" where
  "show_nat n = (if n < 10 then [digit_char n] else show_nat (n div 10) @ [digit_char (n mod 10)])"
  by pat_completeness auto
termination
  by (relation "measure id") auto

declare show_nat.simps [simp del]

definition show_int :: "int \<Rightarrow> string" where
  "show_int i = (if i < 0 then CHR ''-'' # show_nat (nat (- i)) else show_nat (nat i))"

definition hex_digit :: "nat \<Rightarrow> char" where
  "hex_digit n = ''0123456789abcdef'' ! (n mod 16)"

section \<open>The digest: MD5 (\<open>utils/md5\<close>)\<close>

text \<open>
  \<open>md5Hex\<close> is Node's \<open>crypto.createHash('md5').update(content).digest('hex')\<close>.
  The digest itself is not repository code; it is written out here
  (RFC 1321) so that identifiers are concrete strings.  A string is read as
  its sequence of bytes.
\<close>

type_synonym u8 = "8 word"
type_synonym u32 = "32 word"
type_synonym md5_state = "u32 \<times> u32 \<times> u32 \<times> u32"

definition md5_K :: "u32 list" where
  "md5_K =
   [0xd76aa478, 0xe8c7b756, 0x242070db, 0xc1bdceee, 0xf57c0faf, 0x4787c62a, 0xa8304613, 0xfd469501,
    0x698098d8, 0x8b44f7af, 0xffff5bb1, 0x895cd7be, 0x6b901122, 0xfd987193, 0xa679438e, 0x49b40821,
    0xf61e2562, 0xc040b340, 0x265e5a51, 0xe9b6c7aa, 0xd62f105d, 0x02441453, 0xd8a1e681, 0xe7d3fbc8,
    0x21e1cde6, 0xc33707d6, 0xf4d50d87, 0x455a14ed, 0xa9e3e905, 0xfcefa3f8, 0x676f02d9, 0x8d2a4c8a,
    0xfffa3942, 0x8771f681, 0x6d9d6122, 0xfde5380c, 0xa4beea44, 0x4bdecfa9, 0xf6bb4b60, 0xbebfbc70,
    0x289b7ec6, 0xeaa127fa, 0xd4ef3085, 0x04881d05, 0xd9d4d039, 0xe6db99e5, 0x1fa27cf8, 0xc4ac5665,
    0xf4292244, 0x432aff97, 0xab9423a7, 0xfc93a039, 0x655b59c3, 0x8f0ccc92, 0xffeff47d, 0x85845dd1,
    0x6fa87e4f, 0xfe2ce6e0, 0xa3014314, 0x4e0811a1, 0xf7537e82, 0xbd3af235, 0x2ad7d2bb, 0xeb86d391]"

definition md5_S :: "nat list" where
  "md5_S =
   [7, 12, 17, 22, 7, 12, 17, 22, 7, 12, 17, 22, 7, 12, 17, 22,
    5, 9, 14, 20, 5, 9, 14, 20, 5, 9, 14, 20, 5, 9, 14, 20,
    4, 11, 16, 23, 4, 11, 16, 23, 4, 11, 16, 23, 4, 11, 16, 23,
    6, 10, 15, 21, 6, 10, 15, 21, 6, 10, 15, 21, 6, 10, 15, 21]"

definition rotl32 :: "nat \<Rightarrow> u32 \<Rightarrow> u32" where
  "rotl32 n x = push_bit n x OR drop_bit (32 - n) x"

definition md5_round :: "u32 list \<Rightarrow> md5_state \<Rightarrow> nat \<Rightarrow> md5_state" where
  "md5_round m st i =
     (case st of (a, b, c, d) \<Rightarrow>
        (let f = (if i < 16 then (b AND c) OR (NOT b AND d)
                  else if i < 32 then (d AND b) OR (NOT d AND c)
                  else if i < 48 then b XOR c XOR d
                  else c XOR (b OR NOT d));
             g = (if i < 16 then i
                  else if i < 32 then (5 * i + 1) mod 16
                  else if i < 48 then (3 * i + 5) mod 16
                  else (7 * i) mod 16);
             f' = f + a + md5_K ! i + m ! g
         in (d, b + rotl32 (md5_S ! i) f', b, c)))"

definition md5_block :: "md5_state \<Rightarrow> u32 list \<Rightarrow> md5_state" where
  "md5_block st m =
     (case st of (a0, b0, c0, d0) \<Rightarrow>
        (case foldl (md5_round m) st [0..<64] of (a, b, c, d) \<Rightarrow>
           (a0 + a, b0 + b, c0 + c, d0 + d)))"

text \<open>The \<open>k\<close> low bytes of a word, least significant first, and back.\<close>

definition le_bytes :: "nat \<Rightarrow> 'a::len word \<Rightarrow> u8 list" where
  "le_bytes k w = map (\<lambda>i. ucast (drop_bit (8 * i) w)) [0..<k]"

fun le_word :: "u8 list \<Rightarrow> u32" where
  "le_word [] = 0"
| "le_word (b # bs) = ucast b + push_bit 8 (le_word bs)"

fun chop :: "nat \<Rightarrow> 'a list \<Rightarrow> 'a list list" where
  "chop n [] = []"
| "chop n (x # xs) =
     (if n = 0 then [] else take n (x # xs) # chop n (drop n (x # xs)))"

definition md5_pad :: "u8 list \<Rightarrow> u8 list" where
  "md5_pad bs =
     (let n = length bs;
          z = (55 + 64 - n mod 64) mod 64
      in bs @ [0x80] @ replicate z 0 @ le_bytes 8 (of_nat (8 * n) :: 64 word))"

definition md5 :: "string \<Rightarrow> u8 list" where
  "md5 content =
     (let bytes = map (\<lambda>c. of_nat (of_char c)) content;
          blocks = map (map le_word \<circ> chop 4) (chop 64 (md5_pad bytes))
      in case foldl md5_block (0x67452301, 0xefcdab89, 0x98badcfe, 0x10325476) blocks of
           (a, b, c, d) \<Rightarrow> concat (map (le_bytes 4) [a, b, c, d]))"

definition hex_byte :: "u8 \<Rightarrow> string" where
  "hex_byte b = [hex_digit (unat b div 16), hex_digit (unat b mod 16)]"

definition md5Hex :: "string \<Rightarrow> string" where
  "md5Hex content = concat (map hex_byte (md5 content))"

section \<open>JSON text (\<open>JSON.stringify\<close>, \<open>JSON.parse\<close>)\<close>

text \<open>
  The two built-ins the codec calls, written out for the values of type
  \<open>json\<close>.  \<open>JSON_stringify\<close> prints without white space and escapes the
  quote, the backslash and the control characters.  \<open>JSON_parse\<close> reads the
  JSON grammar with white space and the standard escapes; a numeral with a
  fraction or an exponent and a \<open>\u\<close> escape above \<open>00ff\<close> denote values
  that \<open>json\<close> does not have and are not read.  The recursive descent takes
  the length of the text as its recursion bound.
\<close>

definition dquote :: char where
  "dquote = CHR 0x22"

definition bslash :: char where
  "bslash = CHR 0x5C"

definition escape_char :: "char \<Rightarrow> string" where
  "escape_char c =
     (let n = (of_char c :: nat)
      in if c = dquote then [bslash, dquote]
         else if c = bslash then [bslash, bslash]
         else if n = 8 then [bslash, CHR ''b'']
         else if n = 9 then [bslash, CHR ''t'']
         else if n = 10 then [bslash, CHR ''n'']
         else if n = 12 then [bslash, CHR ''f'']
         else if n = 13 then [bslash, CHR ''r'']
         else if n < 32 then [bslash, CHR ''u'', CHR ''0'', CHR ''0'', hex_digit (n div 16), hex_digit (n mod 16)]
         else [c])"

definition quote :: "string \<Rightarrow> string" where
  "quote s = dquote # concat (map escape_char s) @ [dquote]"

fun JSON_stringify :: "json \<Rightarrow> string"
  and stringify_elems :: "json list \<Rightarrow> string"
  and stringify_membs :: "(string \<times> json) list \<Rightarrow> string" where
  "JSON_stringify JNull = ''null''"
| "JSON_stringify (JBool b) = (if b then ''true'' else ''false'')"
| "JSON_stringify (JNum i) = show_int i"
| "JSON_stringify (JStr s) = quote s"
| "JSON_stringify (JArr xs) = ''['' @ stringify_elems xs @ '']''"
| "JSON_stringify (JObj kvs) = ''{'' @ stringify_membs kvs @ ''}''"
| "stringify_elems [] = []"
| "stringify_elems (x # xs) =
     JSON_stringify x @ (if xs = [] then [] else '','' @ stringify_elems xs)"
| "stringify_membs [] = []"
| "stringify_membs (kv # kvs) =
     quote (fst kv) @ '':'' @ JSON_stringify (snd kv)
       @ (if kvs = [] then [] else '','' @ stringify_membs kvs)"

definition is_ws :: "char \<Rightarrow> bool" where
  "is_ws c = (of_char c \<in> {32, 9, 10, 13 :: nat})"

fun skip_ws :: "string \<Rightarrow> string" where
  "skip_ws [] = []"
| "skip_ws (c # cs) = (if is_ws c then skip_ws cs else c # cs)"

definition is_digit :: "char \<Rightarrow> bool" where
  "is_digit c = (48 \<le> (of_char c :: nat) \<and> (of_char c :: nat) \<le> 57)"

definition digit_val :: "char \<Rightarrow> nat" where
  "digit_val c = of_char c - 48"

definition hex_val :: "char \<Rightarrow> nat option" where
  "hex_val c =
     (let n = (of_char c :: nat)
      in if 48 \<le> n \<and> n \<le> 57 then Some (n - 48)
         else if 97 \<le> n \<and> n \<le> 102 then Some (n - 87)
         else if 65 \<le> n \<and> n \<le> 70 then Some (n - 55)
         else None)"

definition hex4 :: "char \<Rightarrow> char \<Rightarrow> char \<Rightarrow> char \<Rightarrow> nat option" where
  "hex4 a b c d =
     (case (hex_val a, hex_val b, hex_val c, hex_val d) of
        (Some w, Some x, Some y, Some z) \<Rightarrow> Some (((w * 16 + x) * 16 + y) * 16 + z)
      | _ \<Rightarrow> None)"

definition unescape :: "char \<Rightarrow> char option" where
  "unescape e =
     (if e = dquote then Some dquote
      else if e = bslash then Some bslash
      else if e = CHR ''/'' then Some CHR ''/''
      else if e = CHR ''b'' then Some (char_of (8 :: nat))
      else if e = CHR ''t'' then Some (char_of (9 :: nat))
      else if e = CHR ''n'' then Some (char_of (10 :: nat))
      else if e = CHR ''f'' then Some (char_of (12 :: nat))
      else if e = CHR ''r'' then Some (char_of (13 :: nat))
      else None)"

text \<open>The characters of a string literal, read after its opening quote.\<close>

fun parse_string :: "string \<Rightarrow> (string \<times> string) option" where
  "parse_string [] = None"
| "parse_string (c # cs) =
     (if c = dquote then Some ([], cs)
      else if c = bslash then
        (case cs of
           [] \<Rightarrow> None
         | e # r \<Rightarrow>
             if e = CHR ''u'' then
               (case r of
                  h1 # h2 # h3 # h4 # r' \<Rightarrow>
                    (case hex4 h1 h2 h3 h4 of
                       None \<Rightarrow> None
                     | Some n \<Rightarrow>
                         if n < 256
                         then (case parse_string r' of
                                 None \<Rightarrow> None
                               | Some (s, t) \<Rightarrow> Some (char_of n # s, t))
                         else None)
                | _ \<Rightarrow> None)
             else (case unescape e of
                     None \<Rightarrow> None
                   | Some x \<Rightarrow>
                       (case parse_string r of
                          None \<Rightarrow> None
                        | Some (s, t) \<Rightarrow> Some (x # s, t))))
      else if (of_char c :: nat) < 32 then None
      else (case parse_string cs of
              None \<Rightarrow> None
            | Some (s, t) \<Rightarrow> Some (c # s, t)))"

fun parse_digits :: "nat \<Rightarrow> string \<Rightarrow> nat \<times> string" where
  "parse_digits acc [] = (acc, [])"
| "parse_digits acc (c # cs) =
     (if is_digit c then parse_digits (10 * acc + digit_val c) cs else (acc, c # cs))"

definition parse_unsigned :: "string \<Rightarrow> (nat \<times> string) option" where
  "parse_unsigned s =
     (case s of
        [] \<Rightarrow> None
      | c # cs \<Rightarrow>
          if \<not> is_digit c then None
          else (case (if c = CHR ''0'' then (0, cs) else parse_digits 0 (c # cs)) of
                  (n, r) \<Rightarrow>
                    (case r of
                       [] \<Rightarrow> Some (n, r)
                     | d # _ \<Rightarrow>
                         if is_digit d \<or> d = CHR ''.'' \<or> d = CHR ''e'' \<or> d = CHR ''E''
                         then None else Some (n, r))))"

definition parse_number :: "string \<Rightarrow> (int \<times> string) option" where
  "parse_number s =
     (case s of
        [] \<Rightarrow> None
      | c # cs \<Rightarrow>
          if c = CHR ''-''
          then (case parse_unsigned cs of None \<Rightarrow> None | Some (n, r) \<Rightarrow> Some (- int n, r))
          else (case parse_unsigned s of None \<Rightarrow> None | Some (n, r) \<Rightarrow> Some (int n, r)))"

fun parse_value :: "nat \<Rightarrow> string \<Rightarrow> (json \<times> string) option"
  and parse_elems :: "nat \<Rightarrow> string \<Rightarrow> (json list \<times> string) option"
  and parse_membs :: "nat \<Rightarrow> string \<Rightarrow> ((string \<times> json) list \<times> string) option" where
  "parse_value 0 s = None"
| "parse_value (Suc n) [] = None"
| "parse_value (Suc n) (c # cs) =
     (if c = CHR ''n'' then (if take 3 cs = ''ull'' then Some (JNull, drop 3 cs) else None)
      else if c = CHR ''t'' then (if take 3 cs = ''rue'' then Some (JBool True, drop 3 cs) else None)
      else if c = CHR ''f'' then (if take 4 cs = ''alse'' then Some (JBool False, drop 4 cs) else None)
      else if c = dquote then
        (case parse_string cs of None \<Rightarrow> None | Some (s, r) \<Rightarrow> Some (JStr s, r))
      else if c = CHR ''['' then
        (case skip_ws cs of
           [] \<Rightarrow> None
         | d # r \<Rightarrow>
             if d = CHR '']'' then Some (JArr [], r)
             else (case parse_elems n (d # r) of
                     None \<Rightarrow> None
                   | Some (vs, r') \<Rightarrow> Some (JArr vs, r')))
      else if c = CHR ''{'' then
        (case skip_ws cs of
           [] \<Rightarrow> None
         | d # r \<Rightarrow>
             if d = CHR ''}'' then Some (JObj [], r)
             else (case parse_membs n (d # r) of
                     None \<Rightarrow> None
                   | Some (kvs, r') \<Rightarrow> Some (JObj kvs, r')))
      else (case parse_number (c # cs) of None \<Rightarrow> None | Some (i, r) \<Rightarrow> Some (JNum i, r)))"
| "parse_elems 0 s = None"
| "parse_elems (Suc n) s =
     (case parse_value n s of
        None \<Rightarrow> None
      | Some (v, r) \<Rightarrow>
          (case skip_ws r of
             [] \<Rightarrow> None
           | d # r' \<Rightarrow>
               if d = CHR '','' then
                 (case parse_elems n (skip_ws r') of
                    None \<Rightarrow> None
                  | Some (vs, r'') \<Rightarrow> Some (v # vs, r''))
               else if d = CHR '']'' then Some ([v], r')
               else None))"
| "parse_membs 0 s = None"
| "parse_membs (Suc n) s =
     (case s of
        [] \<Rightarrow> None
      | q # r0 \<Rightarrow>
          if q \<noteq> dquote then None
          else (case parse_string r0 of
                  None \<Rightarrow> None
                | Some (k, r1) \<Rightarrow>
                    (case skip_ws r1 of
                       [] \<Rightarrow> None
                     | col # r2 \<Rightarrow>
                         if col \<noteq> CHR '':'' then None
                         else (case parse_value n (skip_ws r2) of
                                 None \<Rightarrow> None
                               | Some (v, r3) \<Rightarrow>
                                   (case skip_ws r3 of
                                      [] \<Rightarrow> None
                                    | d # r4 \<Rightarrow>
                                        if d = CHR '','' then
                                          (case parse_membs n (skip_ws r4) of
                                             None \<Rightarrow> None
                                           | Some (kvs, r5) \<Rightarrow> Some ((k, v) # kvs, r5))
                                        else if d = CHR ''}'' then Some ([(k, v)], r4)
                                        else None)))))"

definition JSON_parse :: "string \<Rightarrow> error + json" where
  "JSON_parse s =
     (case parse_value (length s) (skip_ws s) of
        None \<Rightarrow> Inl SyntaxError
      | Some (v, r) \<Rightarrow> if skip_ws r = [] then Inr v else Inl SyntaxError)"

text \<open>
  Two predicates on printed text: the characters a printed value can start
  with, and what follows a printed value (the end of the text, or the comma
  or bracket after an element).
\<close>

definition value_start :: "char \<Rightarrow> bool" where
  "value_start c =
     (c \<in> {CHR ''n'', CHR ''t'', CHR ''f'', dquote, CHR ''['', CHR ''{'', CHR ''-''} \<or> is_digit c)"

definition num_end :: "string \<Rightarrow> bool" where
  "num_end rest = (rest = [] \<or> hd rest \<in> {CHR '','', CHR '']'', CHR ''}''})"

section \<open>Plain objects\<close>

text \<open>
  The registry (\<open>const callbackRegistry = {}\<close>) and the two tables of the
  session (\<open>reply: {}\<close>, \<open>params: {}\<close>) are plain objects.  A map holds the
  own properties of such an object.  A read \<open>obj[key]\<close> finds the own
  property, and otherwise the property that \<open>Object.prototype\<close> has under
  that name; \<open>object_prototype\<close> lists those names.
\<close>

definition object_prototype :: "string list" where
  "object_prototype =
     [''constructor'', ''__defineGetter__'', ''__defineSetter__'', ''hasOwnProperty'',
      ''__lookupGetter__'', ''__lookupSetter__'', ''isPrototypeOf'', ''propertyIsEnumerable'',
      ''toString'', ''valueOf'', ''__proto__'', ''toLocaleString'']"

datatype 'a lookup = Absent | Own 'a | Inherited string

definition get_property :: "(string \<rightharpoonup> 'a) \<Rightarrow> string \<Rightarrow> 'a lookup" where
  "get_property obj key =
     (case obj key of
        Some v \<Rightarrow> Own v
      | None \<Rightarrow> if key \<in> set object_prototype then Inherited key else Absent)"

text \<open>
  An inherited property is a built-in function, or, for \<open>__proto__\<close>, the
  prototype object itself: it is truthy, it is no string, and it has no
  property \<open>hash\<close> or \<open>params\<close>.  Called as \<open>f(ctx, ...)\<close>, with no
  \<open>this\<close>, \<open>Object\<close> (the \<open>constructor\<close>) returns the context and
  \<open>toString\<close> returns \<open>[object Undefined]\<close>; the other functions convert
  \<open>this\<close> to an object and raise a \<open>TypeError\<close>, as does the call of the
  prototype object.
\<close>

definition call_inherited :: "string \<Rightarrow> outcome" where
  "call_inherited key =
     (if key = ''constructor'' then Returned ContextObject
      else if key = ''toString'' then Returned (Json (JStr ''[object Undefined]''))
      else Threw TypeError)"

text \<open>
  An assignment \<open>obj[key] = v\<close> of a string \<open>v\<close> creates or updates the own
  property, with one exception: on an object without an own property
  \<open>__proto__\<close> the assignment reaches the setter of \<open>Object.prototype\<close>,
  which ignores a value that is neither an object nor \<open>null\<close>.
\<close>

definition set_property :: "(string \<rightharpoonup> string) \<Rightarrow> string \<Rightarrow> string \<Rightarrow> (string \<rightharpoonup> string)" where
  "set_property obj key v =
     (if key = ''__proto__'' \<and> obj key = None then obj else obj(key \<mapsto> v))"

section \<open>Data model (\<open>callback-types\<close>, \<open>wait\<close>)\<close>

text \<open>
  What the core reads of the inbound update: \<open>ctx.has(filter)\<close>,
  \<open>ctx.message?.text\<close> and \<open>ctx.callbackQuery.data\<close>.  The host framework
  supplies all three; \<open>has\<close> takes the list of filter queries, and a single
  query is the list of that one query.
\<close>

record Context =
  has :: "string list \<Rightarrow> bool"
  message_text :: "string option"
  callbackQuery_data :: "string option"

text \<open>\<open>interface WaitState\<close>; \<open>filter\<close> is an optional field.\<close>

record WaitState =
  messageId :: int
  handlerId :: string
  filter_ws :: "string list option"
  cancelKeyword :: string
  timeoutId :: int

text \<open>An entry of the session's \<open>params\<close> table: \<open>{ hash, params }\<close>.\<close>

record SessionParams =
  sp_hash :: string
  sp_params :: string

text \<open>
  \<open>interface CallbackSessionData\<close>, as \<open>getSessionData(ctx)\<close> returns it.
  The two tables hold the own properties of their objects.  The wait state is
  an object: it is stored with its reference, and \<open>===\<close> on two wait states
  compares the references.
\<close>

record CallbackSessionData =
  sd_reply :: "string \<rightharpoonup> string"
  sd_params :: "string \<rightharpoonup> SessionParams"
  sd_wait :: "(nat \<times> WaitState) option"
  sd_lastHash :: "string option"

text \<open>Calls on the outbound API that the core or a handler makes.\<close>

datatype effect = DeleteMessages "int list" | Reply string

text \<open>
  The mutable state around one update: the user's session data, the outbound
  calls made so far, and the next unused object reference.
\<close>

record world =
  session :: CallbackSessionData
  effects :: "effect list"
  next_ref :: nat

text \<open>
  A handler \<open>(ctx, ...args) => Promise<R>\<close>: it resolves to a value or
  rejects with an error, and leaves the state as it made it.  The registry is
  filled at start-up and is not part of the state a handler changes.
\<close>

type_synonym handler = "Context \<Rightarrow> jsval list \<Rightarrow> world \<Rightarrow> outcome \<times> world"

text \<open>
  A function object: \<open>fn.name\<close>, \<open>fn.toString()\<close>, the \<open>hash\<close> property
  that registration sets, and what a call does.
\<close>

record fnobj =
  fn_name :: string
  fn_source :: string
  fn_hash :: "string option"
  fn_call :: handler

type_synonym registry = "string \<rightharpoonup> fnobj"

text \<open>
  A curried callback: \<open>origin\<close> and \<open>params\<close>; \<open>params\<close> is
  \<open>undefined\<close> until arguments are bound.  Registration sets
  \<open>fn.origin = fn\<close>, so the origin of a registered function is the function
  itself.
\<close>

record curried =
  origin :: fnobj
  params :: "json list option"

definition initialCallbackData :: CallbackSessionData where
  "initialCallbackData =
     \<lparr>sd_reply = Map.empty, sd_params = Map.empty, sd_wait = None, sd_lastHash = None\<rparr>"

section \<open>Hasher\<close>

definition calculateFunctionHash :: "fnobj \<Rightarrow> string" where
  "calculateFunctionHash fn =
     (let fnString = fn_source fn;
          fnHash = md5Hex fnString
      in if fn_name fn \<noteq> []
         then take 8 (fn_name fn)
                @ take (nat (max 4 (12 - int (length (fn_name fn))))) fnHash
         else slice_from 12 fnHash)"

definition calculateFunctionHashWithPath :: "fnobj \<Rightarrow> string \<Rightarrow> string" where
  "calculateFunctionHashWithPath fn path =
     (let name = (if path \<noteq> [] then path else fn_name fn);
          hash = md5Hex name
      in if name \<noteq> []
         then slice_last 12 name
                @ take (nat (max 4 (16 - int (length (fn_name fn))))) hash
         else take 16 hash)"

definition generateHash :: "string \<Rightarrow> string" where
  "generateHash ps = take 8 (md5Hex ps)"

text \<open>
  The spec's wire grammar for an identifier, \<open>[A-Za-z0-9]{~8-16}\<close>: 8 to 16
  alphanumeric characters.
\<close>

definition alphanumeric :: "char \<Rightarrow> bool" where
  "alphanumeric c =
     (let n = (of_char c :: nat)
      in (48 \<le> n \<and> n \<le> 57) \<or> (65 \<le> n \<and> n \<le> 90) \<or> (97 \<le> n \<and> n \<le> 122))"

definition hex_char :: "char \<Rightarrow> bool" where
  "hex_char c = (c \<in> set ''0123456789abcdef'')"

definition grammar_identifier :: "string \<Rightarrow> bool" where
  "grammar_identifier s = (list_all alphanumeric s \<and> 8 \<le> length s \<and> length s \<le> 16)"

section \<open>Curry engine and registration\<close>

text \<open>The text that \<open>${hash}\<close> interpolates for \<open>origin.hash\<close>.\<close>

definition hash_text :: "fnobj \<Rightarrow> string" where
  "hash_text f = (case fn_hash f of None \<Rightarrow> ''undefined'' | Some h \<Rightarrow> h)"

definition toCallbackData :: "curried \<Rightarrow> string" where
  "toCallbackData this =
     (let hash = hash_text (origin this)
      in case params this of
           None \<Rightarrow> ''_cb:'' @ hash
         | Some ps \<Rightarrow>
             if ps = [] then ''_cb:'' @ hash
             else (let paramsStr = JSON_stringify (JArr ps)
                   in ''_cb:'' @ hash @ '':'' @ paramsStr))"

definition createCurried :: "fnobj \<Rightarrow> json list option \<Rightarrow> curried" where
  "createCurried parent accumulatedParams =
     \<lparr>origin = parent, params = accumulatedParams\<rparr>"

text \<open>
  A call of a curried callback whose first argument is not a context binds
  the arguments; a call with a context runs the origin.
\<close>

definition curried_bind :: "curried \<Rightarrow> json list \<Rightarrow> curried" where
  "curried_bind c args =
     createCurried (origin c)
       (Some (case params c of None \<Rightarrow> args | Some ps \<Rightarrow> ps @ args))"

definition curried_run :: "curried \<Rightarrow> Context \<Rightarrow> jsval list \<Rightarrow> world \<Rightarrow> outcome \<times> world" where
  "curried_run c ctx args w =
     (let ps = (case params c of None \<Rightarrow> args | Some ps \<Rightarrow> map Json ps @ args);
          w' = w\<lparr>session := (session w)\<lparr>sd_lastHash := fn_hash (origin c)\<rparr>\<rparr>
      in fn_call (origin c) ctx ps w')"

text \<open>
  \<open>cb\<close>: the registry entry is assigned without a look at what it held.  The
  identifiers that the hashers make end in hex digits (\<open>identifier_own_key\<close>),
  so that the assignments to the registry and to the \<open>params\<close> table create
  or update an own property.
\<close>

definition cb :: "registry \<Rightarrow> fnobj \<Rightarrow> registry \<times> curried" where
  "cb callbackRegistry callback =
     (let hash = calculateFunctionHash callback;
          f = callback\<lparr>fn_hash := Some hash\<rparr>
      in (callbackRegistry(hash \<mapsto> f), createCurried f None))"

text \<open>
  The argument of \<open>cbs\<close>: functions at the leaves of nested objects and
  arrays; anything else is returned as it is.  An array's keys are its
  indices.
\<close>

datatype cbtree =
    CbFn fnobj
  | CbObj "(string \<times> cbtree) list"
  | CbArr "cbtree list"
  | CbPrim jsval

datatype curried_tree =
    CtFn curried
  | CtObj "(string \<times> curried_tree) list"
  | CtArr "curried_tree list"
  | CtPrim jsval

text \<open>
  \<open>walk\<close> throws when the identifier of a leaf is bound already; what was
  registered before the throw stays registered.
\<close>

fun walk :: "registry \<Rightarrow> cbtree \<Rightarrow> string \<Rightarrow> registry \<times> (error + curried_tree)"
  and walk_members ::
    "registry \<Rightarrow> (string \<times> cbtree) list \<Rightarrow> string
       \<Rightarrow> registry \<times> (error + (string \<times> curried_tree) list)"
  and walk_items ::
    "registry \<Rightarrow> nat \<Rightarrow> cbtree list \<Rightarrow> string \<Rightarrow> registry \<times> (error + curried_tree list)" where
  "walk reg (CbFn obj) parentPath =
     (let path = (if take 1 parentPath = ''.'' then drop 1 parentPath else parentPath);
          hash = calculateFunctionHashWithPath obj path
      in case get_property reg hash of
           Absent \<Rightarrow>
             (let cbEx = obj\<lparr>fn_hash := Some hash\<rparr>
              in (reg(hash \<mapsto> cbEx), Inr (CtFn (createCurried cbEx None))))
         | _ \<Rightarrow> (reg, Inl (AlreadyRegistered hash)))"
| "walk reg (CbObj kvs) parentPath =
     (case walk_members reg kvs parentPath of
        (reg', Inl e) \<Rightarrow> (reg', Inl e)
      | (reg', Inr result) \<Rightarrow> (reg', Inr (CtObj result)))"
| "walk reg (CbArr xs) parentPath =
     (case walk_items reg 0 xs parentPath of
        (reg', Inl e) \<Rightarrow> (reg', Inl e)
      | (reg', Inr result) \<Rightarrow> (reg', Inr (CtArr result)))"
| "walk reg (CbPrim v) parentPath = (reg, Inr (CtPrim v))"
| "walk_members reg [] parentPath = (reg, Inr [])"
| "walk_members reg (kv # rest) parentPath =
     (let key = fst kv;
          childPath = (if parentPath \<noteq> [] then parentPath @ ''.'' @ key else key)
      in case walk reg (snd kv) childPath of
           (reg', Inl e) \<Rightarrow> (reg', Inl e)
         | (reg', Inr v) \<Rightarrow>
             (case walk_members reg' rest parentPath of
                (reg'', Inl e) \<Rightarrow> (reg'', Inl e)
              | (reg'', Inr vs) \<Rightarrow> (reg'', Inr ((key, v) # vs))))"
| "walk_items reg i [] parentPath = (reg, Inr [])"
| "walk_items reg i (x # rest) parentPath =
     (let key = show_nat i;
          childPath = (if parentPath \<noteq> [] then parentPath @ ''.'' @ key else key)
      in case walk reg x childPath of
           (reg', Inl e) \<Rightarrow> (reg', Inl e)
         | (reg', Inr v) \<Rightarrow>
             (case walk_items reg' (Suc i) rest parentPath of
                (reg'', Inl e) \<Rightarrow> (reg'', Inl e)
              | (reg'', Inr vs) \<Rightarrow> (reg'', Inr (v # vs))))"

definition cbs :: "registry \<Rightarrow> cbtree \<Rightarrow> registry \<times> (error + curried_tree)" where
  "cbs callbackRegistry callbacksObj = walk callbackRegistry callbacksObj []"

section \<open>Token codec: splitting\<close>

text \<open>
  \<open>splitCallbackData\<close> destructures \<open>callbackData.split(':', 2)\<close> into
  \<open>prefix\<close> and \<open>hash\<close>.  When the data has no colon the split has one
  piece, \<open>hash\<close> is \<open>undefined\<close>, and \<open>hash.length\<close> raises a
  \<open>TypeError\<close> once the prefix has passed the shape check.
\<close>

definition splitCallbackData :: "string \<Rightarrow> error + (string \<times> string \<times> string option)" where
  "splitCallbackData callbackData =
     (case split_limit (CHR '':'') 2 callbackData of
        [] \<Rightarrow> Inr ([], [], None)
      | prefix # rest \<Rightarrow>
          if prefix = [] \<or> length prefix \<noteq> 3 \<or> take 1 prefix \<noteq> ''_''
          then Inr ([], [], None)
          else (case rest of
                  [] \<Rightarrow> Inl TypeError
                | hash # _ \<Rightarrow>
                    (let paramsJson = slice_from (length prefix + length hash + 2) callbackData
                     in Inr (prefix, hash, if paramsJson = [] then None else Some paramsJson))))"

section \<open>Token codec: overflow store and execution\<close>

definition storeCallbackData :: "string \<Rightarrow> world \<Rightarrow> (error + string) \<times> world" where
  "storeCallbackData cbData w =
     (case splitCallbackData cbData of
        Inl e \<Rightarrow> (Inl e, w)
      | Inr (_, hash, paramsJson) \<Rightarrow>
          (case paramsJson of
             None \<Rightarrow> (Inr cbData, w)
           | Some pj \<Rightarrow>
               (let sessionHash = generateHash pj;
                    entry = \<lparr>sp_hash = hash, sp_params = pj\<rparr>
                in (Inr (''_ch:'' @ sessionHash),
                    w\<lparr>session := (session w)
                         \<lparr>sd_params := (sd_params (session w))(sessionHash \<mapsto> entry)\<rparr>\<rparr>))))"

text \<open>
  \<open>...params\<close> on the parsed value: an array spreads into its elements, a
  string into its characters; nothing else is iterable.
\<close>

definition spread :: "json \<Rightarrow> error + jsval list" where
  "spread v =
     (case v of
        JArr xs \<Rightarrow> Inr (map Json xs)
      | JStr s \<Rightarrow> Inr (map (\<lambda>c. Json (JStr [c])) s)
      | _ \<Rightarrow> Inl TypeError)"

text \<open>
  \<open>paramsJson ? JSON.parse(paramsJson) : []\<close>, spread into the call.
\<close>

definition parse_params :: "string option \<Rightarrow> error + jsval list" where
  "parse_params paramsJson =
     (case paramsJson of
        None \<Rightarrow> Inr []
      | Some pj \<Rightarrow>
          if pj = [] then Inr []
          else (case JSON_parse pj of
                  Inl e \<Rightarrow> Inl e
                | Inr v \<Rightarrow> spread v))"

text \<open>
  Both lookups of \<open>executeCallback\<close> are reads of a plain object.  When the
  \<open>params\<close> table yields an inherited property, \<open>sessionData.hash\<close> and
  \<open>sessionData.params\<close> are \<open>undefined\<close>, and the registry is read at the
  key \<open>undefined\<close>.  When the registry yields an inherited property, that is
  what is called.
\<close>

definition executeCallback ::
  "registry \<Rightarrow> Context \<Rightarrow> string \<Rightarrow> jsval list \<Rightarrow> world \<Rightarrow> outcome \<times> world" where
  "executeCallback callbackRegistry ctx callbackData args w =
     (case splitCallbackData callbackData of
        Inl e \<Rightarrow> (Threw e, w)
      | Inr (prefix, initialHash, initialParamsJson) \<Rightarrow>
          (case (if prefix = ''_ch''
                 then (case get_property (sd_params (session w)) initialHash of
                         Absent \<Rightarrow> Inl (SessionCallbackNotFound initialHash)
                       | Own sessionData \<Rightarrow>
                           Inr (sp_hash sessionData, Some (sp_params sessionData))
                       | Inherited _ \<Rightarrow> Inr (''undefined'', None))
                 else Inr (initialHash, initialParamsJson)) of
             Inl e \<Rightarrow> (Threw e, w)
           | Inr (hash, paramsJson) \<Rightarrow>
               (case get_property callbackRegistry hash of
                  Absent \<Rightarrow> (Threw (UnknownCallback hash), w)
                | Own callback \<Rightarrow>
                    (case parse_params paramsJson of
                       Inl e \<Rightarrow> (Threw e, w)
                     | Inr ps \<Rightarrow> fn_call callback ctx (ps @ args) w)
                | Inherited key \<Rightarrow>
                    (case parse_params paramsJson of
                       Inl e \<Rightarrow> (Threw e, w)
                     | Inr ps \<Rightarrow> (call_inherited key, w)))))"

section \<open>Dispatcher (\<open>handleText\<close>, the \<open>callback_query\<close> handler)\<close>

text \<open>
  \<open>next\<close> is the rest of the host's middleware chain.  \<open>reply[text]\<close> is a
  read of a plain object; an inherited property is truthy and is passed to
  \<open>executeCallback\<close>, where \<open>callbackData.split\<close> is not a function and the
  call raises a \<open>TypeError\<close>.
\<close>

definition handleText ::
  "registry \<Rightarrow> Context \<Rightarrow> (world \<Rightarrow> outcome \<times> world) \<Rightarrow> world \<Rightarrow> outcome \<times> world" where
  "handleText callbackRegistry ctx next w =
     (case message_text ctx of
        None \<Rightarrow> next w
      | Some text \<Rightarrow>
          if text = [] then next w
          else (case get_property (sd_reply (session w)) text of
                  Absent \<Rightarrow> next w
                | Inherited _ \<Rightarrow> (Threw TypeError, w)
                | Own callbackData \<Rightarrow>
                    if callbackData = [] then next w
                    else (case executeCallback callbackRegistry ctx callbackData [] w of
                            (Threw e, w') \<Rightarrow> (Threw e, w')
                          | (Returned executed, w') \<Rightarrow>
                              if executed \<noteq> Json (JBool False)
                              then (Returned Undefined, w')
                              else next w')))"

definition isCallbackData :: "string option \<Rightarrow> bool" where
  "isCallbackData data =
     (case data of
        None \<Rightarrow> False
      | Some d \<Rightarrow> startsWith d ''_cb:'' \<or> startsWith d ''_ch:'')"

definition callback_query_handler ::
  "registry \<Rightarrow> Context \<Rightarrow> (world \<Rightarrow> outcome \<times> world) \<Rightarrow> world \<Rightarrow> outcome \<times> world" where
  "callback_query_handler callbackRegistry ctx next w =
     (case callbackQuery_data ctx of
        None \<Rightarrow> next w
      | Some callbackData \<Rightarrow>
          if isCallbackData (Some callbackData)
          then (case executeCallback callbackRegistry ctx callbackData [] w of
                  (Threw e, w') \<Rightarrow> (Threw e, w')
                | (Returned v, w') \<Rightarrow>
                    if truthy v then (Returned Undefined, w') else next w')
          else next w)"

text \<open>
  The hook on outgoing payloads records, for every reply-keyboard button that
  carries data, \<open>reply[button.text] = data\<close>.
\<close>

record button =
  button_text :: string
  button__callback_data :: "string option"
  button_callback_data :: "string option"

definition button_data :: "button \<Rightarrow> string option" where
  "button_data b =
     (case button__callback_data b of
        Some d \<Rightarrow> if d \<noteq> [] then Some d else button_callback_data b
      | None \<Rightarrow> button_callback_data b)"

fun record_buttons :: "button list \<Rightarrow> (string \<rightharpoonup> string) \<Rightarrow> (string \<rightharpoonup> string)" where
  "record_buttons [] reply = reply"
| "record_buttons (b # bs) reply =
     (case button_data b of
        None \<Rightarrow> record_buttons bs reply
      | Some d \<Rightarrow>
          if d \<noteq> [] then record_buttons bs (set_property reply (button_text b) d)
          else record_buttons bs reply)"

section \<open>Wait protocol (\<open>wait\<close>)\<close>

definition clearWaitState :: "world \<Rightarrow> world" where
  "clearWaitState w =
     (let sessionData = session w;
          w1 = (case sd_wait sessionData of
                  None \<Rightarrow> w
                | Some (r, ws) \<Rightarrow>
                    if messageId ws \<noteq> 0
                    then w\<lparr>effects := effects w @ [DeleteMessages [messageId ws]]\<rparr>
                    else w)
      in w1\<lparr>session := (session w1)\<lparr>sd_wait := None\<rparr>\<rparr>)"

text \<open>
  \<open>interface WaitOptions\<close>; \<open>wait\<close> reads \<open>messageId\<close> and
  \<open>cancelKeyword\<close> only.
\<close>

record WaitOptions =
  wo_messageId :: "int option"
  wo_cancelKeyword :: "string option"

text \<open>
  The second and third parameter of \<open>wait\<close>:
  \<open>filter: FilterQuery | FilterQuery[] | WaitCallback\<close> and
  \<open>handlerOrOptions?: WaitCallback | WaitOptions\<close>.
\<close>

datatype wait_filter = FilterQuery string | FilterQueries "string list" | FilterCallback curried

datatype wait_arg = ArgMissing | ArgCallback curried | ArgOptions WaitOptions

definition wait ::
  "wait_filter \<Rightarrow> wait_arg \<Rightarrow> WaitOptions option \<Rightarrow> world \<Rightarrow> outcome \<times> world" where
  "wait filter_arg handlerOrOptions waitOptions w =
     (let w1 = clearWaitState w;
          (handler, opts, filter_list) =
            (case filter_arg of
               FilterCallback c \<Rightarrow>
                 (ArgCallback c,
                  (case handlerOrOptions of
                     ArgMissing \<Rightarrow> None
                   | ArgCallback _ \<Rightarrow> Some \<lparr>wo_messageId = None, wo_cancelKeyword = None\<rparr>
                   | ArgOptions opt \<Rightarrow> Some opt),
                  [''message:text''])
             | FilterQuery q \<Rightarrow> (handlerOrOptions, waitOptions, [q])
             | FilterQueries qs \<Rightarrow> (handlerOrOptions, waitOptions, qs))
      in case handler of
           ArgCallback h \<Rightarrow>
             (let mid = (case opts of
                           None \<Rightarrow> 0
                         | Some opt \<Rightarrow>
                             (case wo_messageId opt of
                                None \<Rightarrow> 0
                              | Some m \<Rightarrow> if m \<noteq> 0 then m else 0));
                  kw = (case opts of
                          None \<Rightarrow> ''/cancelwait''
                        | Some opt \<Rightarrow>
                            (case wo_cancelKeyword opt of
                               None \<Rightarrow> ''/cancelwait''
                             | Some k \<Rightarrow> if k \<noteq> [] then k else ''/cancelwait''));
                  st = \<lparr>messageId = mid,
                        handlerId = toCallbackData h,
                        filter_ws = Some filter_list,
                        cancelKeyword = toLowerCase kw,
                        timeoutId = 0\<rparr>
              in (Returned Undefined,
                  w1\<lparr>session := (session w1)\<lparr>sd_wait := Some (next_ref w1, st)\<rparr>,
                     next_ref := Suc (next_ref w1)\<rparr>))
         | _ \<Rightarrow> (Threw TypeError, w1))"

text \<open>
  The text of the update as \<open>handleWaitResponse\<close> reads it; \<open>undefined\<close>
  when the update is neither a text message nor a button press with data.
  A handler error is caught there and logged; every error of the model is an
  error object.
\<close>

definition update_text :: "Context \<Rightarrow> string option" where
  "update_text ctx =
     (if has ctx [''message:text''] then message_text ctx
      else if has ctx [''callback_query:data''] then callbackQuery_data ctx
      else None)"

definition text_val :: "string option \<Rightarrow> jsval" where
  "text_val t = (case t of None \<Rightarrow> Undefined | Some s \<Rightarrow> Json (JStr s))"

text \<open>
  The end of \<open>handleWaitResponse\<close>: the state is cleared when the session
  still holds the object that was read at entry.
\<close>

definition clear_if_same :: "nat \<Rightarrow> world \<Rightarrow> world" where
  "clear_if_same ref w =
     (case sd_wait (session w) of
        None \<Rightarrow> w
      | Some (ref', _) \<Rightarrow> if ref' = ref then clearWaitState w else w)"

definition handleWaitResponse :: "registry \<Rightarrow> Context \<Rightarrow> world \<Rightarrow> bool \<times> world" where
  "handleWaitResponse callbackRegistry ctx w =
     (case sd_wait (session w) of
        None \<Rightarrow> (False, w)
      | Some (ref, waitState) \<Rightarrow>
          (let text = update_text ctx
           in if (case text of
                    None \<Rightarrow> False
                  | Some t \<Rightarrow> t \<noteq> [] \<and> toLowerCase t = cancelKeyword waitState)
              then (True, clearWaitState w)
              else if (case filter_ws waitState of
                         None \<Rightarrow> False
                       | Some f \<Rightarrow> \<not> has ctx f)
              then (False, w)
              else if handlerId waitState \<noteq> []
              then (case executeCallback callbackRegistry ctx
                           (handlerId waitState) [text_val text] w of
                      (out, w') \<Rightarrow>
                        (let result = (case out of
                                         Threw err \<Rightarrow> Json (JBool True)
                                       | Returned v \<Rightarrow> v)
                         in if result = Json (JBool False) then (True, w')
                            else (True, clear_if_same ref w')))
              else (True, clear_if_same ref w)))"

definition waitMiddleware ::
  "registry \<Rightarrow> Context \<Rightarrow> (world \<Rightarrow> outcome \<times> world) \<Rightarrow> world \<Rightarrow> outcome \<times> world" where
  "waitMiddleware callbackRegistry ctx next w =
     (case handleWaitResponse callbackRegistry ctx w of
        (handled, w') \<Rightarrow> if \<not> handled then next w' else (Returned Undefined, w'))"

section \<open>Example values\<close>

text \<open>
  Two handlers that reply with the JSON text of their arguments (the examples
  pass them JSON data and \<open>undefined\<close>, which prints as \<open>null\<close> inside
  an array); \<open>greet\<close> resolves to \<open>undefined\<close>, \<open>retry\<close> to \<open>false\<close>.  The registry holds
  both, registered with \<open>cb\<close>.  The contexts are a text message and a
  button press; \<open>ex_next\<close> stands for the rest of the middleware chain.
\<close>

definition to_json :: "jsval \<Rightarrow> json" where
  "to_json v = (case v of Json j \<Rightarrow> j | _ \<Rightarrow> JNull)"

definition replying :: "jsval \<Rightarrow> handler" where
  "replying result ctx args w =
     (Returned result,
      w\<lparr>effects := effects w @ [Reply (JSON_stringify (JArr (map to_json args)))]\<rparr>)"

definition ex_greet :: fnobj where
  "ex_greet =
     \<lparr>fn_name = ''greet'',
      fn_source = ''async (ctx, ...a) => { await ctx.reply(JSON.stringify(a)) }'',
      fn_hash = None,
      fn_call = replying Undefined\<rparr>"

definition ex_retry :: fnobj where
  "ex_retry =
     \<lparr>fn_name = ''retry'',
      fn_source = ''async (ctx, ...a) => { await ctx.reply(JSON.stringify(a)); return false }'',
      fn_hash = None,
      fn_call = replying (Json (JBool False))\<rparr>"

text \<open>The curried callbacks that \<open>cb\<close> returns for the two handlers.\<close>

definition ex_greet_cb :: curried where
  "ex_greet_cb = snd (cb Map.empty ex_greet)"

definition ex_retry_cb :: curried where
  "ex_retry_cb = snd (cb Map.empty ex_retry)"

text \<open>A handler that pauses again, for \<open>greet\<close>.\<close>

definition ex_again :: fnobj where
  "ex_again =
     \<lparr>fn_name = ''again'',
      fn_source = ''async (ctx, t) => { wait(ctx, handlers.greet) }'',
      fn_hash = None,
      fn_call = (\<lambda>ctx args. wait (FilterCallback ex_greet_cb) ArgMissing None)\<rparr>"

definition ex_again_cb :: curried where
  "ex_again_cb = snd (cb Map.empty ex_again)"

definition ex_registry :: registry where
  "ex_registry = fst (cb (fst (cb (fst (cb Map.empty ex_greet)) ex_retry)) ex_again)"

definition ex_text_ctx :: "string \<Rightarrow> Context" where
  "ex_text_ctx t =
     \<lparr>has = (\<lambda>fs. list_ex (\<lambda>f. f \<in> set [''message'', ''message:text'']) fs),
      message_text = Some t,
      callbackQuery_data = None\<rparr>"

definition ex_button_ctx :: "string \<Rightarrow> Context" where
  "ex_button_ctx d =
     \<lparr>has = (\<lambda>fs. list_ex (\<lambda>f. f \<in> set [''callback_query'', ''callback_query:data'']) fs),
      message_text = None,
      callbackQuery_data = Some d\<rparr>"

text \<open>
  The tree of the \<open>cbs\<close> example: \<open>cbs({ shop: { open: async (ctx) => { ... } } })\<close>,
  and a tree whose key holds a colon.
\<close>

definition ex_open :: fnobj where
  "ex_open =
     \<lparr>fn_name = ''open'',
      fn_source = ''async (ctx, ...a) => { await ctx.reply(JSON.stringify(a)) }'',
      fn_hash = None,
      fn_call = replying Undefined\<rparr>"

definition ex_shop :: cbtree where
  "ex_shop = CbObj [(''shop'', CbObj [(''open'', CbFn ex_open)])]"

definition ex_colon :: fnobj where
  "ex_colon =
     \<lparr>fn_name = ''a:b'',
      fn_source = ''async (ctx, ...a) => { await ctx.reply(JSON.stringify(a)) }'',
      fn_hash = None,
      fn_call = replying Undefined\<rparr>"

definition ex_colon_tree :: cbtree where
  "ex_colon_tree = CbObj [(''a:b'', CbFn ex_colon)]"

text \<open>An anonymous handler, registered with \<open>cb\<close>.\<close>

definition ex_anonymous :: fnobj where
  "ex_anonymous =
     \<lparr>fn_name = [],
      fn_source = ''async (ctx) => {}'',
      fn_hash = None,
      fn_call = replying Undefined\<rparr>"


definition ex_world :: world where
  "ex_world = \<lparr>session = initialCallbackData, effects = [], next_ref = 0\<rparr>"

text \<open>
  The state after \<open>wait(ctx, handler, { messageId: 5 })\<close>: a wait for the
  next text message, anchored at message 5, with no cancel keyword given.
\<close>

definition ex_waiting_for :: "curried \<Rightarrow> world" where
  "ex_waiting_for c =
     snd (wait (FilterCallback c)
            (ArgOptions \<lparr>wo_messageId = Some 5, wo_cancelKeyword = None\<rparr>) None ex_world)"

definition ex_next :: "world \<Rightarrow> outcome \<times> world" where
  "ex_next w = (Returned Undefined, w\<lparr>effects := effects w @ [Reply ''next'']\<rparr>)"

section \<open>Properties of the splitter\<close>

lemma splitOn_nonempty: "splitOn c s \<noteq> []"
  by (induction s) (auto split: list.splits)

lemma splitOn_no_sep: "c \<notin> set s \<Longrightarrow> splitOn c s = [s]"
  by (induction s) auto

lemma splitOn_append_sep:
  "c \<notin> set p \<Longrightarrow> splitOn c (p @ c # r) = p # splitOn c r"
  by (induction p) auto

lemma splitOn_hd: "splitOn c s = takeWhile (\<lambda>x. x \<noteq> c) s # tl (splitOn c s)"
  by (induction s) (auto split: list.splits)

lemma takeWhile_upto_sep: "c \<notin> set p \<Longrightarrow> takeWhile (\<lambda>x. x \<noteq> c) (p @ c # r) = p"
  by (induction p) auto

lemma split_limit_2_no_sep: "c \<notin> set s \<Longrightarrow> split_limit c 2 s = [s]"
  by (simp add: split_limit_def splitOn_no_sep)

lemma split_limit_2_sep:
  "c \<notin> set p \<Longrightarrow> split_limit c 2 (p @ c # r) = [p, takeWhile (\<lambda>x. x \<noteq> c) r]"
proof -
  assume "c \<notin> set p"
  then have "splitOn c (p @ c # r) = p # splitOn c r"
    by (rule splitOn_append_sep)
  moreover have "take 1 (splitOn c r) = [takeWhile (\<lambda>x. x \<noteq> c) r]"
    by (subst splitOn_hd) simp
  ultimately show ?thesis
    by (simp add: split_limit_def)
qed

text \<open>
  A string whose text before the first colon is not three characters long, or
  which does not start with an underscore, decodes to the empty triple.
\<close>

lemma splitCallbackData_malformed:
  assumes "length (takeWhile (\<lambda>x. x \<noteq> CHR '':'') s) \<noteq> 3
           \<or> take 1 s \<noteq> ''_''"
  shows "splitCallbackData s = Inr ([], [], None)"
proof (cases "CHR '':'' \<in> set s")
  case False
  then have tw: "takeWhile (\<lambda>x. x \<noteq> CHR '':'') s = s"
    by auto
  from False have "split_limit (CHR '':'') 2 s = [s]"
    by (rule split_limit_2_no_sep)
  with assms tw show ?thesis
    by (auto simp: splitCallbackData_def)
next
  case True
  then obtain p r where s: "s = p @ CHR '':'' # r" and p: "CHR '':'' \<notin> set p"
    by (auto dest: split_list_first)
  from p have tw: "takeWhile (\<lambda>x. x \<noteq> CHR '':'') s = p"
    by (simp add: s takeWhile_upto_sep)
  from p have sl: "split_limit (CHR '':'') 2 s = [p, takeWhile (\<lambda>x. x \<noteq> CHR '':'') r]"
    unfolding s by (rule split_limit_2_sep)
  have "length p \<noteq> 3 \<or> take 1 p \<noteq> ''_''"
  proof (cases "length p = 3")
    case True
    with assms tw have "take 1 s \<noteq> ''_''" by simp
    moreover from True have "take 1 s = take 1 p" by (simp add: s)
    ultimately show ?thesis by simp
  qed simp
  with sl show ?thesis
    by (auto simp: splitCallbackData_def)
qed

text \<open>
  The splitter raises on the three-character strings \<open>_xy\<close> without a
  colon, and on no other string.
\<close>

lemma splitCallbackData_raises_iff:
  "splitCallbackData s = Inl e \<longleftrightarrow>
     e = TypeError \<and> CHR '':'' \<notin> set s \<and> length s = 3 \<and> take 1 s = ''_''"
proof (cases "CHR '':'' \<in> set s")
  case False
  then have "split_limit (CHR '':'') 2 s = [s]"
    by (rule split_limit_2_no_sep)
  with False show ?thesis
    by (auto simp: splitCallbackData_def)
next
  case True
  then obtain p r where s: "s = p @ CHR '':'' # r" and p: "CHR '':'' \<notin> set p"
    by (auto dest: split_list_first)
  from p have sl: "split_limit (CHR '':'') 2 s = [p, takeWhile (\<lambda>x. x \<noteq> CHR '':'') r]"
    unfolding s by (rule split_limit_2_sep)
  with True show ?thesis
    by (auto simp: splitCallbackData_def Let_def)
qed

text \<open>The splitter on well-formed tokens whose identifier has no colon.\<close>

lemma splitCallbackData_cb:
  assumes "CHR '':'' \<notin> set h"
  shows "splitCallbackData (''_cb:'' @ h) = Inr (''_cb'', h, None)"
    and "splitCallbackData (''_ch:'' @ h) = Inr (''_ch'', h, None)"
    and "splitCallbackData (''_cb:'' @ h @ '':'' @ p) = Inr (''_cb'', h, if p = [] then None else Some p)"
proof -
  have a: "split_limit (CHR '':'') 2 (''_cb'' @ CHR '':'' # h) = [''_cb'', takeWhile (\<lambda>x. x \<noteq> CHR '':'') h]"
    by (rule split_limit_2_sep) simp
  have b: "split_limit (CHR '':'') 2 (''_ch'' @ CHR '':'' # h) = [''_ch'', takeWhile (\<lambda>x. x \<noteq> CHR '':'') h]"
    by (rule split_limit_2_sep) simp
  have c: "split_limit (CHR '':'') 2 (''_cb'' @ CHR '':'' # (h @ '':'' @ p)) = [''_cb'', takeWhile (\<lambda>x. x \<noteq> CHR '':'') (h @ '':'' @ p)]"
    by (rule split_limit_2_sep) simp
  from assms have tw: "takeWhile (\<lambda>x. x \<noteq> CHR '':'') h = h"
    by auto
  from assms have tw2: "takeWhile (\<lambda>x. x \<noteq> CHR '':'') (h @ '':'' @ p) = h"
    by (simp add: takeWhile_upto_sep)
  from a tw show "splitCallbackData (''_cb:'' @ h) = Inr (''_cb'', h, None)"
    by (simp add: splitCallbackData_def slice_from_def)
  from b tw show "splitCallbackData (''_ch:'' @ h) = Inr (''_ch'', h, None)"
    by (simp add: splitCallbackData_def slice_from_def)
  from c tw2 show "splitCallbackData (''_cb:'' @ h @ '':'' @ p) = Inr (''_cb'', h, if p = [] then None else Some p)"
    by (simp add: splitCallbackData_def slice_from_def)
qed

section \<open>Properties of the digest and the hasher\<close>

text \<open>The digest of \<open>abc\<close> is the one RFC 1321 lists.\<close>

lemma md5Hex_abc: "md5Hex ''abc'' = ''900150983cd24fb0d6963f7d28e17f72''"
  by code_simp

lemma length_le_bytes [simp]: "length (le_bytes k w) = k"
  by (simp add: le_bytes_def)

lemma length_md5: "length (md5 content) = 16"
  by (simp add: md5_def Let_def split: prod.splits)

lemma length_hex_bytes: "length (concat (map hex_byte bs)) = 2 * length bs"
  by (induction bs) (simp_all add: hex_byte_def)

lemma length_md5Hex: "length (md5Hex content) = 32"
  by (simp add: md5Hex_def length_hex_bytes length_md5)

lemma hex_digit_hex: "hex_char (hex_digit n)"
proof -
  have "n mod 16 < length ''0123456789abcdef''" by simp
  then have "''0123456789abcdef'' ! (n mod 16) \<in> set ''0123456789abcdef''"
    by (rule nth_mem)
  then show ?thesis
    by (simp only: hex_char_def hex_digit_def)
qed

lemma hex_bytes_hex: "list_all hex_char (concat (map hex_byte bs))"
  by (induction bs) (simp_all add: hex_byte_def hex_digit_hex)

lemma md5Hex_hex: "list_all hex_char (md5Hex content)"
  by (simp add: md5Hex_def hex_bytes_hex)

lemma hex_char_alphanumeric: "hex_char c \<Longrightarrow> alphanumeric c"
  by (auto simp: hex_char_def alphanumeric_def)

lemma hex_char_not_colon: "hex_char c \<Longrightarrow> c \<noteq> CHR '':''"
  by (auto simp: hex_char_def)

lemma hex_no_colon: "list_all hex_char s \<Longrightarrow> CHR '':'' \<notin> set s"
  by (auto simp: list_all_iff dest: hex_char_not_colon)

lemma list_all_take: "list_all P xs \<Longrightarrow> list_all P (take n xs)"
  by (auto simp: list_all_iff dest: in_set_takeD)

lemma list_all_drop: "list_all P xs \<Longrightarrow> list_all P (drop n xs)"
  by (auto simp: list_all_iff dest: in_set_dropD)

lemma list_all_mono: "list_all P xs \<Longrightarrow> (\<And>x. P x \<Longrightarrow> Q x) \<Longrightarrow> list_all Q xs"
  by (auto simp: list_all_iff)

lemma generateHash_hex: "list_all hex_char (generateHash ps)"
  unfolding generateHash_def by (rule list_all_take) (rule md5Hex_hex)

lemma generateHash_length: "length (generateHash ps) = 8"
  by (simp add: generateHash_def length_md5Hex)

lemma calculateFunctionHash_fn_hash [simp]:
  "calculateFunctionHash (f\<lparr>fn_hash := h\<rparr>) = calculateFunctionHash f"
  by (simp add: calculateFunctionHash_def Let_def)

lemma calculateFunctionHash_no_colon:
  assumes "CHR '':'' \<notin> set (fn_name f)"
  shows "CHR '':'' \<notin> set (calculateFunctionHash f)"
proof -
  have "\<And>n. CHR '':'' \<notin> set (take n (md5Hex (fn_source f)))"
    by (rule hex_no_colon) (rule list_all_take, rule md5Hex_hex)
  moreover have "\<And>n. CHR '':'' \<notin> set (drop n (md5Hex (fn_source f)))"
    by (rule hex_no_colon) (rule list_all_drop, rule md5Hex_hex)
  ultimately show ?thesis
    using assms
    by (auto simp: calculateFunctionHash_def Let_def slice_from_def dest: in_set_takeD)
qed

section \<open>Properties of JSON text: numbers\<close>

lemma of_char_digit_char: "d < 10 \<Longrightarrow> (of_char (digit_char d) :: nat) = 48 + d"
  by (simp add: digit_char_def)

lemma is_digit_digit_char: "d < 10 \<Longrightarrow> is_digit (digit_char d)"
  by (simp add: is_digit_def of_char_digit_char)

lemma digit_val_digit_char: "d < 10 \<Longrightarrow> digit_val (digit_char d) = d"
  by (simp add: digit_val_def of_char_digit_char)

lemma digit_char_zero: "digit_char 0 = CHR ''0''"
  by code_simp

lemma show_nat_digits: "list_all is_digit (show_nat n)"
proof (induction n rule: show_nat.induct)
  case (1 n)
  show ?case
  proof (cases "n < 10")
    case True
    then show ?thesis
      by (subst show_nat.simps) (simp add: is_digit_digit_char)
  next
    case False
    with 1 show ?thesis
      by (subst show_nat.simps) (simp add: is_digit_digit_char)
  qed
qed

lemma show_nat_nonempty: "show_nat n \<noteq> []"
  by (subst show_nat.simps) simp

lemma parse_digits_append:
  "list_all is_digit ds \<Longrightarrow>
     parse_digits acc (ds @ rest) =
       parse_digits (foldl (\<lambda>a c. 10 * a + digit_val c) acc ds) rest"
  by (induction ds arbitrary: acc) simp_all

lemma foldl_show_nat:
  "foldl (\<lambda>a c. 10 * a + digit_val c) acc (show_nat n)
     = acc * 10 ^ length (show_nat n) + n"
proof (induction n arbitrary: acc rule: show_nat.induct)
  case (1 n)
  show ?case
  proof (cases "n < 10")
    case True
    then have "show_nat n = [digit_char n]"
      by (subst show_nat.simps) simp
    with True show ?thesis by (simp add: digit_val_digit_char)
  next
    case False
    have sn: "show_nat n = show_nat (n div 10) @ [digit_char (n mod 10)]"
      using False by (subst show_nat.simps) simp
    from False have ih: "foldl (\<lambda>a c. 10 * a + digit_val c) acc (show_nat (n div 10))
                         = acc * 10 ^ length (show_nat (n div 10)) + n div 10"
      by (rule 1)
    have "foldl (\<lambda>a c. 10 * a + digit_val c) acc (show_nat n)
            = 10 * (acc * 10 ^ length (show_nat (n div 10)) + n div 10) + n mod 10"
      unfolding sn by (simp only: foldl_append foldl.simps ih) (simp add: digit_val_digit_char)
    also have "\<dots> = acc * 10 ^ length (show_nat n) + (10 * (n div 10) + n mod 10)"
      unfolding sn by (simp add: algebra_simps)
    finally show ?thesis by simp
  qed
qed

lemma parse_digits_stop:
  "(rest = [] \<or> \<not> is_digit (hd rest)) \<Longrightarrow> parse_digits acc rest = (acc, rest)"
  by (cases rest) auto

lemma parse_digits_show_nat:
  assumes "rest = [] \<or> \<not> is_digit (hd rest)"
  shows "parse_digits 0 (show_nat n @ rest) = (n, rest)"
  using assms
  by (simp add: parse_digits_append show_nat_digits foldl_show_nat parse_digits_stop)

lemma show_nat_hd_zero:
  "hd (show_nat n) = CHR ''0'' \<Longrightarrow> n = 0"
proof (induction n rule: show_nat.induct)
  case (1 n)
  show ?case
  proof (cases "n < 10")
    case True
    then have "show_nat n = [digit_char n]"
      by (subst show_nat.simps) simp
    with 1(2) have "digit_char n = CHR ''0''" by simp
    then have "(of_char (digit_char n) :: nat) = of_char (CHR ''0'')" by simp
    with True show ?thesis by (simp add: of_char_digit_char)
  next
    case False
    have sn: "show_nat n = show_nat (n div 10) @ [digit_char (n mod 10)]"
      using False by (subst show_nat.simps) simp
    with 1(2) have "hd (show_nat (n div 10)) = CHR ''0''"
      by (simp add: show_nat_nonempty)
    with False 1(1) have "n div 10 = 0" by simp
    with False show ?thesis by simp
  qed
qed

lemma num_end_cases:
  "num_end rest \<Longrightarrow>
     rest = [] \<or> (\<exists>d r. rest = d # r \<and> \<not> is_digit d \<and> d \<noteq> CHR ''.'' \<and> d \<noteq> CHR ''e'' \<and> d \<noteq> CHR ''E'')"
  by (cases rest) (auto simp: num_end_def is_digit_def)

lemma parse_unsigned_show_nat:
  assumes "num_end rest"
  shows "parse_unsigned (show_nat n @ rest) = Some (n, rest)"
proof -
  obtain c cs where sn: "show_nat n = c # cs"
    using show_nat_nonempty [of n] by (cases "show_nat n") auto
  have dig: "is_digit c"
    using show_nat_digits [of n] by (simp add: sn)
  from num_end_cases [OF assms]
  have stop: "rest = [] \<or> \<not> is_digit (hd rest)" by auto
  show ?thesis
  proof (cases "c = CHR ''0''")
    case True
    then have n0: "n = 0" using show_nat_hd_zero [of n] by (simp add: sn)
    then have "show_nat n = ''0''"
      by (subst show_nat.simps) (simp add: digit_char_zero)
    with n0 num_end_cases [OF assms] show ?thesis
      by (auto simp: parse_unsigned_def is_digit_def)
  next
    case False
    have "parse_digits 0 (show_nat n @ rest) = (n, rest)"
      by (rule parse_digits_show_nat) (rule stop)
    with False dig num_end_cases [OF assms] show ?thesis
      by (auto simp: parse_unsigned_def sn)
  qed
qed

lemma parse_number_show_int:
  assumes "num_end rest"
  shows "parse_number (show_int i @ rest) = Some (i, rest)"
proof (cases "i < 0")
  case True
  with parse_unsigned_show_nat [OF assms, of "nat (- i)"] show ?thesis
    by (simp add: parse_number_def show_int_def)
next
  case False
  obtain c cs where sn: "show_nat (nat i) = c # cs"
    using show_nat_nonempty [of "nat i"] by (cases "show_nat (nat i)") auto
  have dig: "is_digit c"
    using show_nat_digits [of "nat i"] by (simp add: sn)
  then have "c \<noteq> CHR ''-''" by (auto simp: is_digit_def)
  with False parse_unsigned_show_nat [OF assms, of "nat i"] show ?thesis
    by (simp add: parse_number_def show_int_def sn)
qed

section \<open>Properties of JSON text: strings\<close>

lemma hex_val_hex_digit_all: "list_all (\<lambda>k. hex_val (hex_digit k) = Some k) [0..<16]"
  by code_simp

lemma hex_val_hex_digit: "k < 16 \<Longrightarrow> hex_val (hex_digit k) = Some k"
  using hex_val_hex_digit_all by (simp add: list_all_iff)

lemma hex_val_zero: "hex_val CHR ''0'' = Some 0"
  by (simp add: hex_val_def)

lemma hex4_control:
  "n < 32 \<Longrightarrow> hex4 CHR ''0'' CHR ''0'' (hex_digit (n div 16)) (hex_digit (n mod 16)) = Some n"
  by (simp add: hex4_def hex_val_zero hex_val_hex_digit)

lemma char_of_code: "(of_char c :: nat) = n \<Longrightarrow> char_of n = c"
  by auto

lemma parse_string_escape:
  "parse_string (escape_char c @ t) =
     (case parse_string t of None \<Rightarrow> None | Some (s, r) \<Rightarrow> Some (c # s, r))"
proof -
  let ?n = "of_char c :: nat"
  consider (q) "c = dquote" | (b) "c = bslash"
    | (c8) "c \<noteq> dquote" "c \<noteq> bslash" "?n = 8"
    | (c9) "c \<noteq> dquote" "c \<noteq> bslash" "?n = 9"
    | (c10) "c \<noteq> dquote" "c \<noteq> bslash" "?n = 10"
    | (c12) "c \<noteq> dquote" "c \<noteq> bslash" "?n = 12"
    | (c13) "c \<noteq> dquote" "c \<noteq> bslash" "?n = 13"
    | (u) "c \<noteq> dquote" "c \<noteq> bslash" "?n < 32" "?n \<notin> {8, 9, 10, 12, 13}"
    | (p) "c \<noteq> dquote" "c \<noteq> bslash" "\<not> ?n < 32"
    by fastforce
  then show ?thesis
  proof cases
    case q
    then show ?thesis
      by (simp add: escape_char_def unescape_def dquote_def bslash_def split: option.splits)
  next
    case b
    then show ?thesis
      by (simp add: escape_char_def unescape_def dquote_def bslash_def split: option.splits)
  next
    case c8
    then have "escape_char c = [bslash, CHR ''b'']" and "char_of (8::nat) = c"
      by (auto simp: escape_char_def intro: char_of_code)
    then show ?thesis
      by (auto simp: unescape_def dquote_def bslash_def split: option.splits)
  next
    case c9
    then have "escape_char c = [bslash, CHR ''t'']" and "char_of (9::nat) = c"
      by (auto simp: escape_char_def intro: char_of_code)
    then show ?thesis
      by (auto simp: unescape_def dquote_def bslash_def split: option.splits)
  next
    case c10
    then have "escape_char c = [bslash, CHR ''n'']" and "char_of (10::nat) = c"
      by (auto simp: escape_char_def intro: char_of_code)
    then show ?thesis
      by (auto simp: unescape_def dquote_def bslash_def split: option.splits)
  next
    case c12
    then have "escape_char c = [bslash, CHR ''f'']" and "char_of (12::nat) = c"
      by (auto simp: escape_char_def intro: char_of_code)
    then show ?thesis
      by (auto simp: unescape_def dquote_def bslash_def split: option.splits)
  next
    case c13
    then have "escape_char c = [bslash, CHR ''r'']" and "char_of (13::nat) = c"
      by (auto simp: escape_char_def intro: char_of_code)
    then show ?thesis
      by (auto simp: unescape_def dquote_def bslash_def split: option.splits)
  next
    case u
    then have e: "escape_char c = [bslash, CHR ''u'', CHR ''0'', CHR ''0'',
                     hex_digit (?n div 16), hex_digit (?n mod 16)]"
      by (auto simp: escape_char_def Let_def)
    have h: "hex4 CHR ''0'' CHR ''0'' (hex_digit (?n div 16)) (hex_digit (?n mod 16)) = Some ?n"
      using u(3) by (rule hex4_control)
    from u(3) have lt: "?n < 256" by simp
    show ?thesis
      unfolding e using h lt
      by (simp add: dquote_def bslash_def split: option.splits)
  next
    case p
    then have "escape_char c = [c]"
      by (auto simp: escape_char_def Let_def)
    with p show ?thesis
      by (simp split: option.splits)
  qed
qed

lemma parse_string_escaped:
  "parse_string (concat (map escape_char s) @ dquote # rest) = Some (s, rest)"
  by (induction s) (simp_all add: parse_string_escape)

lemma parse_string_quote:
  "quote s @ rest = dquote # t \<Longrightarrow> parse_string t = Some (s, rest)"
  by (auto simp: quote_def parse_string_escaped)

section \<open>Properties of JSON text: parsing what was printed\<close>

lemma value_start_skip: "value_start c \<Longrightarrow> skip_ws (c # cs) = c # cs"
  by (auto simp: value_start_def is_ws_def is_digit_def dquote_def)

lemma value_start_not_close: "value_start c \<Longrightarrow> c \<noteq> CHR '']'' \<and> c \<noteq> CHR ''}''"
  by (auto simp: value_start_def is_digit_def dquote_def)

lemma show_int_start:
  "\<exists>c cs. show_int i = c # cs \<and> (c = CHR ''-'' \<or> is_digit c)"
proof (cases "i < 0")
  case True
  then show ?thesis by (simp add: show_int_def)
next
  case False
  obtain c cs where sn: "show_nat (nat i) = c # cs"
    using show_nat_nonempty [of "nat i"] by (cases "show_nat (nat i)") auto
  have "is_digit c"
    using show_nat_digits [of "nat i"] by (simp add: sn)
  with False sn show ?thesis by (simp add: show_int_def)
qed

lemma stringify_start: "\<exists>c cs. JSON_stringify v = c # cs \<and> value_start c"
proof (cases v)
  case (JNum i)
  with show_int_start [of i] show ?thesis
    by (auto simp: value_start_def)
qed (auto simp: value_start_def quote_def)

lemma elems_start: "xs \<noteq> [] \<Longrightarrow> \<exists>c cs. stringify_elems xs = c # cs \<and> value_start c"
proof (cases xs)
  case (Cons x xs')
  obtain c cs where "JSON_stringify x = c # cs" and "value_start c"
    using stringify_start by blast
  with Cons show ?thesis by simp
qed simp

lemma membs_start: "kvs \<noteq> [] \<Longrightarrow> \<exists>cs. stringify_membs kvs = dquote # cs"
  by (cases kvs) (auto simp: quote_def)

lemma parse_value_number:
  assumes "c = CHR ''-'' \<or> is_digit c"
  shows "parse_value (Suc m) (c # cs) =
           (case parse_number (c # cs) of None \<Rightarrow> None | Some (i, r) \<Rightarrow> Some (JNum i, r))"
proof -
  from assms have "c \<noteq> CHR ''n''" "c \<noteq> CHR ''t''" "c \<noteq> CHR ''f''" "c \<noteq> dquote"
    "c \<noteq> CHR ''[''" "c \<noteq> CHR ''{''"
    by (auto simp: is_digit_def dquote_def)
  then show ?thesis by simp
qed

lemma num_end_simps [simp]:
  "num_end []" "num_end (CHR '','' # r)" "num_end (CHR '']'' # r)" "num_end (CHR ''}'' # r)"
  by (simp_all add: num_end_def)

lemma is_ws_sep [simp]:
  "\<not> is_ws (CHR '','')" "\<not> is_ws (CHR '']'')" "\<not> is_ws (CHR ''}'')" "\<not> is_ws (CHR '':'')"
  "\<not> is_ws dquote"
  by (simp_all add: is_ws_def dquote_def)

lemma skip_ws_keep [simp]: "\<not> is_ws c \<Longrightarrow> skip_ws (c # cs) = c # cs"
  by simp

lemma parse_roundtrip:
  "\<forall>n rest. length (JSON_stringify v) \<le> n \<longrightarrow> num_end rest
       \<longrightarrow> parse_value n (JSON_stringify v @ rest) = Some (v, rest)"
  "xs \<noteq> [] \<longrightarrow>
     (\<forall>n rest. length (stringify_elems xs) + 1 \<le> n
        \<longrightarrow> parse_elems n (stringify_elems xs @ CHR '']'' # rest) = Some (xs, rest))"
  "kvs \<noteq> [] \<longrightarrow>
     (\<forall>n rest. length (stringify_membs kvs) + 1 \<le> n
        \<longrightarrow> parse_membs n (stringify_membs kvs @ CHR ''}'' # rest) = Some (kvs, rest))"
proof (induction v and xs and kvs rule: JSON_stringify_stringify_elems_stringify_membs.induct)
  case 1
  show ?case
  proof (intro allI impI)
    fix n rest assume "length (JSON_stringify JNull) \<le> n"
    then obtain m where "n = Suc m" by (cases n) auto
    then show "parse_value n (JSON_stringify JNull @ rest) = Some (JNull, rest)" by simp
  qed
next
  case (2 b)
  show ?case
  proof (intro allI impI)
    fix n rest assume "length (JSON_stringify (JBool b)) \<le> n"
    then obtain m where "n = Suc m" by (cases n) (auto split: if_splits)
    then show "parse_value n (JSON_stringify (JBool b) @ rest) = Some (JBool b, rest)" by simp
  qed
next
  case (3 i)
  show ?case
  proof (intro allI impI)
    fix n rest assume len: "length (JSON_stringify (JNum i)) \<le> n" and ne: "num_end rest"
    obtain c cs where si: "show_int i = c # cs" and st: "c = CHR ''-'' \<or> is_digit c"
      using show_int_start by blast
    from len si obtain m where n: "n = Suc m" by (cases n) auto
    have "parse_number (show_int i @ rest) = Some (i, rest)"
      using ne by (rule parse_number_show_int)
    then have "parse_number (c # cs @ rest) = Some (i, rest)"
      by (simp add: si)
    with parse_value_number [OF st, of m "cs @ rest"]
    show "parse_value n (JSON_stringify (JNum i) @ rest) = Some (JNum i, rest)"
      by (simp add: n si)
  qed
next
  case (4 s)
  show ?case
  proof (intro allI impI)
    fix n rest assume len: "length (JSON_stringify (JStr s)) \<le> n"
    then obtain m where n: "n = Suc m" by (cases n) (auto simp: quote_def)
    have "parse_value (Suc m) (dquote # concat (map escape_char s) @ dquote # rest)
            = Some (JStr s, rest)"
      by (simp add: parse_string_escaped) (simp add: dquote_def)
    then show "parse_value n (JSON_stringify (JStr s) @ rest) = Some (JStr s, rest)"
      by (simp add: n quote_def)
  qed
next
  case (5 xs)
  show ?case
  proof (intro allI impI)
    fix n rest assume len: "length (JSON_stringify (JArr xs)) \<le> n"
    then obtain m where n: "n = Suc m" and m: "length (stringify_elems xs) + 1 \<le> m"
      by (cases n) auto
    show "parse_value n (JSON_stringify (JArr xs) @ rest) = Some (JArr xs, rest)"
    proof (cases "xs = []")
      case True
      then show ?thesis by (simp add: n dquote_def is_ws_def)
    next
      case False
      then obtain c cs where st: "stringify_elems xs = c # cs" and vs: "value_start c"
        using elems_start by blast
      from False 5 m
      have "parse_elems m (stringify_elems xs @ CHR '']'' # rest) = Some (xs, rest)"
        by simp
      then have pe: "parse_elems m (c # cs @ CHR '']'' # rest) = Some (xs, rest)"
        by (simp add: st)
      have sk: "skip_ws (c # cs @ CHR '']'' # rest) = c # cs @ CHR '']'' # rest"
        using vs by (rule value_start_skip)
      from value_start_not_close [OF vs] have nc: "c \<noteq> CHR '']''" by simp
      have "parse_value (Suc m) (CHR ''['' # c # cs @ CHR '']'' # rest) = Some (JArr xs, rest)"
        using sk nc pe by (simp del: skip_ws.simps add: dquote_def)
      then show ?thesis
        by (simp add: n st)
    qed
  qed
next
  case (6 kvs)
  show ?case
  proof (intro allI impI)
    fix n rest assume len: "length (JSON_stringify (JObj kvs)) \<le> n"
    then obtain m where n: "n = Suc m" and m: "length (stringify_membs kvs) + 1 \<le> m"
      by (cases n) auto
    show "parse_value n (JSON_stringify (JObj kvs) @ rest) = Some (JObj kvs, rest)"
    proof (cases "kvs = []")
      case True
      then show ?thesis by (simp add: n dquote_def is_ws_def)
    next
      case False
      then obtain cs where st: "stringify_membs kvs = dquote # cs"
        using membs_start by blast
      from False 6 m
      have "parse_membs m (stringify_membs kvs @ CHR ''}'' # rest) = Some (kvs, rest)"
        by simp
      then have pe: "parse_membs m (dquote # cs @ CHR ''}'' # rest) = Some (kvs, rest)"
        by (simp add: st)
      have sk: "skip_ws (dquote # cs @ CHR ''}'' # rest) = dquote # cs @ CHR ''}'' # rest"
        by (rule value_start_skip) (simp add: value_start_def)
      have nc: "dquote \<noteq> CHR ''}''" by (simp add: dquote_def)
      have "parse_value (Suc m) (CHR ''{'' # dquote # cs @ CHR ''}'' # rest) = Some (JObj kvs, rest)"
        using sk nc pe by (simp del: skip_ws.simps add: dquote_def)
      then show ?thesis
        by (simp add: n st)
    qed
  qed
next
  case 7
  show ?case by simp
next
  case (8 x xs)
  show ?case
  proof (intro allI impI)
    fix n rest assume len: "length (stringify_elems (x # xs)) + 1 \<le> n"
    then obtain m where n: "n = Suc m" by (cases n) auto
    have px: "\<And>k r. length (JSON_stringify x) \<le> k \<Longrightarrow> num_end r
                \<Longrightarrow> parse_value k (JSON_stringify x @ r) = Some (x, r)"
      using 8(1) by blast
    show "parse_elems n (stringify_elems (x # xs) @ CHR '']'' # rest) = Some (x # xs, rest)"
    proof (cases "xs = []")
      case True
      from len n have "length (JSON_stringify x) \<le> m" by (simp add: True)
      then have "parse_value m (JSON_stringify x @ CHR '']'' # rest) = Some (x, CHR '']'' # rest)"
        by (rule px) simp
      then show ?thesis
        by (simp add: n True)
    next
      case False
      from len n False have lx: "length (JSON_stringify x) \<le> m"
        and lxs: "length (stringify_elems xs) + 1 \<le> m"
        by simp_all
      obtain c cs where st: "stringify_elems xs = c # cs" and vs: "value_start c"
        using False elems_start by blast
      have pv: "parse_value m (JSON_stringify x @ CHR '','' # stringify_elems xs @ CHR '']'' # rest)
              = Some (x, CHR '','' # stringify_elems xs @ CHR '']'' # rest)"
        using lx by (rule px) simp
      from False 8(2) lxs
      have "parse_elems m (stringify_elems xs @ CHR '']'' # rest) = Some (xs, rest)"
        by simp
      then have pe: "parse_elems m (c # cs @ CHR '']'' # rest) = Some (xs, rest)"
        by (simp add: st)
      have sk: "skip_ws (c # cs @ CHR '']'' # rest) = c # cs @ CHR '']'' # rest"
        using vs by (rule value_start_skip)
      show ?thesis
        using pv pe sk False
        by (simp del: skip_ws.simps add: n st dquote_def)
    qed
  qed
next
  case 9
  show ?case by simp
next
  case (10 kv kvs)
  show ?case
  proof (intro allI impI)
    fix n rest assume len: "length (stringify_membs (kv # kvs)) + 1 \<le> n"
    then obtain m where n: "n = Suc m" by (cases n) auto
    obtain k v where kv: "kv = (k, v)" by (cases kv)
    have pv: "\<And>j r. length (JSON_stringify v) \<le> j \<Longrightarrow> num_end r
                \<Longrightarrow> parse_value j (JSON_stringify v @ r) = Some (v, r)"
      using 10(1) by (simp add: kv)
    obtain c cs where sv: "JSON_stringify v = c # cs" and vs: "value_start c"
      using stringify_start by blast
    have skv: "\<And>r. skip_ws (c # cs @ r) = c # cs @ r"
      using vs by (rule value_start_skip)
    have ps: "\<And>r. parse_string (concat (map escape_char k) @ dquote # r) = Some (k, r)"
      by (rule parse_string_escaped)
    show "parse_membs n (stringify_membs (kv # kvs) @ CHR ''}'' # rest) = Some (kv # kvs, rest)"
    proof (cases "kvs = []")
      case True
      from len n have "length (JSON_stringify v) \<le> m" by (simp add: True kv)
      then have "parse_value m (JSON_stringify v @ CHR ''}'' # rest) = Some (v, CHR ''}'' # rest)"
        by (rule pv) simp
      then have "parse_value m (c # cs @ CHR ''}'' # rest) = Some (v, CHR ''}'' # rest)"
        by (simp add: sv)
      then show ?thesis
        using skv [of "CHR ''}'' # rest"] ps
        by (simp del: skip_ws.simps add: n True kv quote_def sv)
    next
      case False
      from len n False have lv: "length (JSON_stringify v) \<le> m"
        and lkvs: "length (stringify_membs kvs) + 1 \<le> m"
        by (simp_all add: kv)
      obtain ds where st: "stringify_membs kvs = dquote # ds"
        using False membs_start by blast
      have "parse_value m (JSON_stringify v @ CHR '','' # stringify_membs kvs @ CHR ''}'' # rest)
              = Some (v, CHR '','' # stringify_membs kvs @ CHR ''}'' # rest)"
        using lv by (rule pv) simp
      then have pvv: "parse_value m (c # cs @ CHR '','' # dquote # ds @ CHR ''}'' # rest)
              = Some (v, CHR '','' # dquote # ds @ CHR ''}'' # rest)"
        by (simp add: sv st)
      from False 10(2) lkvs
      have "parse_membs m (stringify_membs kvs @ CHR ''}'' # rest) = Some (kvs, rest)"
        by simp
      then have pe: "parse_membs m (dquote # ds @ CHR ''}'' # rest) = Some (kvs, rest)"
        by (simp add: st)
      have sk: "skip_ws (dquote # ds @ CHR ''}'' # rest) = dquote # ds @ CHR ''}'' # rest"
        by (rule value_start_skip) (simp add: value_start_def)
      show ?thesis
        using pvv pe sk skv [of "CHR '','' # dquote # ds @ CHR ''}'' # rest"] ps False
        by (simp del: skip_ws.simps add: n kv quote_def sv st)
    qed
  qed
qed

lemma JSON_roundtrip: "JSON_parse (JSON_stringify v) = Inr v"
proof -
  obtain c cs where sv: "JSON_stringify v = c # cs" and vs: "value_start c"
    using stringify_start by blast
  have "parse_value (length (JSON_stringify v)) (JSON_stringify v @ []) = Some (v, [])"
    using parse_roundtrip(1) [rule_format, of v "length (JSON_stringify v)" "[]"] by simp
  moreover have "skip_ws (JSON_stringify v) = JSON_stringify v"
    unfolding sv using vs by (rule value_start_skip)
  ultimately show ?thesis
    by (simp add: JSON_parse_def)
qed

lemma stringify_nonempty: "JSON_stringify v \<noteq> []"
  using stringify_start [of v] by auto

section \<open>Properties of plain objects\<close>

lemma get_property_own [simp]: "obj key = Some v \<Longrightarrow> get_property obj key = Own v"
  by (simp add: get_property_def)

lemma get_property_not_own:
  "obj key = None \<Longrightarrow>
     get_property obj key = (if key \<in> set object_prototype then Inherited key else Absent)"
  by (simp add: get_property_def)

lemma get_property_Absent_iff:
  "get_property obj key = Absent \<longleftrightarrow> obj key = None \<and> key \<notin> set object_prototype"
  by (simp add: get_property_def split: option.splits)

lemma prototype_name_no_colon: "key \<in> set object_prototype \<Longrightarrow> CHR '':'' \<notin> set key"
  by (auto simp: object_prototype_def)





section \<open>Properties of registration\<close>

lemma cb_registers:
  "fst (cb reg f) (calculateFunctionHash f) = Some (f\<lparr>fn_hash := Some (calculateFunctionHash f)\<rparr>)"
  "snd (cb reg f) = createCurried (f\<lparr>fn_hash := Some (calculateFunctionHash f)\<rparr>) None"
  by (simp_all add: cb_def Let_def)

text \<open>\<open>cbs\<close> adds bindings and never replaces one.\<close>

lemma walk_keeps_bindings:
  "reg \<subseteq>\<^sub>m fst (walk reg t pp)"
  "reg \<subseteq>\<^sub>m fst (walk_members reg kvs pp)"
  "reg \<subseteq>\<^sub>m fst (walk_items reg i ts pp)"
proof (induction reg t pp and reg kvs pp and reg i ts pp rule: walk_walk_members_walk_items.induct)
  case (1 reg obj parentPath)
  then show ?case
    by (auto simp: Let_def map_le_def get_property_def split: option.splits if_splits)
next
  case (2 reg kvs parentPath)
  then show ?case
    by (auto split: prod.splits sum.splits)
next
  case (3 reg xs parentPath)
  then show ?case
    by (auto split: prod.splits sum.splits)
next
  case (4 reg v parentPath)
  then show ?case by simp
next
  case (5 reg parentPath)
  then show ?case by simp
next
  case (6 reg kv rest parentPath)
  show ?case
  proof (cases "walk reg (snd kv) (if parentPath \<noteq> [] then parentPath @ ''.'' @ fst kv else fst kv)")
    case (Pair reg' r)
    show ?thesis
    proof (cases r)
      case (Inl e)
      with Pair 6(1) [OF refl refl] show ?thesis
        by (simp add: Let_def)
    next
      case (Inr v)
      from Pair 6(1) [OF refl refl] have a: "reg \<subseteq>\<^sub>m reg'"
        by simp
      have b: "reg' \<subseteq>\<^sub>m fst (walk_members reg' rest parentPath)"
        by (rule 6(2) [OF refl refl Pair [symmetric] Inr])
      from a b have "reg \<subseteq>\<^sub>m fst (walk_members reg' rest parentPath)"
        by (rule map_le_trans)
      with Pair Inr show ?thesis
        by (auto simp: Let_def split: prod.splits sum.splits)
    qed
  qed
next
  case (7 reg i parentPath)
  then show ?case by simp
next
  case (8 reg i x rest parentPath)
  show ?case
  proof (cases "walk reg x (if parentPath \<noteq> [] then parentPath @ ''.'' @ show_nat i else show_nat i)")
    case (Pair reg' r)
    show ?thesis
    proof (cases r)
      case (Inl e)
      with Pair 8(1) [OF refl refl] show ?thesis
        by (simp add: Let_def)
    next
      case (Inr v)
      from Pair 8(1) [OF refl refl] have a: "reg \<subseteq>\<^sub>m reg'"
        by simp
      have b: "reg' \<subseteq>\<^sub>m fst (walk_items reg' (Suc i) rest parentPath)"
        by (rule 8(2) [OF refl refl Pair [symmetric] Inr])
      from a b have "reg \<subseteq>\<^sub>m fst (walk_items reg' (Suc i) rest parentPath)"
        by (rule map_le_trans)
      with Pair Inr show ?thesis
        by (auto simp: Let_def split: prod.splits sum.splits)
    qed
  qed
qed

section \<open>Properties of execution and of the overflow store\<close>

text \<open>
  A token whose identifier the registry does not hold, or a \<open>_ch\<close> token
  whose session entry is missing, makes \<open>executeCallback\<close> throw and leaves
  the state as it was, unless the key names a property of
  \<open>Object.prototype\<close>.
\<close>

lemma executeCallback_lookup_failure:
  assumes "splitCallbackData d = Inr (prefix, key, rest)"
      and "if prefix = ''_ch'' then sd_params (session w) key = None
           else callbackRegistry key = None"
      and "key \<notin> set object_prototype"
  shows "executeCallback callbackRegistry ctx d args w =
           (Threw (if prefix = ''_ch'' then SessionCallbackNotFound key
                   else UnknownCallback key), w)"
  using assms by (simp add: executeCallback_def get_property_def split: if_splits)

text \<open>
  A \<open>_cb\<close> token whose identifier is a property name of \<open>Object.prototype\<close>
  and no own key of the registry calls the inherited property; a \<open>_ch\<close>
  token with such a key and no own entry goes on to the registry with the
  identifier \<open>undefined\<close>.
\<close>

lemma executeCallback_inherited_callback:
  assumes "key \<in> set object_prototype" and "callbackRegistry key = None"
  shows "executeCallback callbackRegistry ctx (''_cb:'' @ key) args w = (call_inherited key, w)"
  using assms splitCallbackData_cb(1) [OF prototype_name_no_colon [OF assms(1)]]
  by (simp add: executeCallback_def get_property_def parse_params_def)

lemma executeCallback_inherited_entry:
  assumes "key \<in> set object_prototype" and "sd_params (session w) key = None"
      and "callbackRegistry ''undefined'' = None"
  shows "executeCallback callbackRegistry ctx (''_ch:'' @ key) args w
           = (Threw (UnknownCallback ''undefined''), w)"
proof -
  have "''undefined'' \<notin> set object_prototype"
    by (simp add: object_prototype_def)
  with assms splitCallbackData_cb(2) [OF prototype_name_no_colon [OF assms(1)]]
  show ?thesis
    by (simp add: executeCallback_def get_property_def)
qed

lemma executeCallback_cb_token:
  assumes "CHR '':'' \<notin> set h" and "callbackRegistry h = Some f"
  shows "executeCallback callbackRegistry ctx (''_cb:'' @ h) args w = fn_call f ctx args w"
  using assms splitCallbackData_cb(1) [of h]
  by (simp add: executeCallback_def parse_params_def)

lemma executeCallback_cb_args:
  assumes "CHR '':'' \<notin> set h" and "callbackRegistry h = Some f"
  shows "executeCallback callbackRegistry ctx (''_cb:'' @ h @ '':'' @ JSON_stringify (JArr A)) args w
           = fn_call f ctx (map Json A @ args) w"
proof -
  have "splitCallbackData (''_cb:'' @ h @ '':'' @ JSON_stringify (JArr A))
          = Inr (''_cb'', h, Some (JSON_stringify (JArr A)))"
    using splitCallbackData_cb(3) [OF assms(1), of "JSON_stringify (JArr A)"]
      stringify_nonempty [of "JArr A"]
    by simp
  with assms(2) stringify_nonempty [of "JArr A"] show ?thesis
    by (simp add: executeCallback_def parse_params_def JSON_roundtrip spread_def
        del: JSON_stringify.simps)
qed

lemma render_execute:
  assumes "callbackRegistry ident = Some h"
      and "fn_hash (origin c) = Some ident"
      and "CHR '':'' \<notin> set ident"
  shows "executeCallback callbackRegistry ctx (toCallbackData c) args w
         = fn_call h ctx (map Json (case params c of None \<Rightarrow> [] | Some ps \<Rightarrow> ps) @ args) w"
proof (cases "params c = None \<or> params c = Some []")
  case True
  with assms(2) have "toCallbackData c = ''_cb:'' @ ident"
    by (auto simp: toCallbackData_def hash_text_def)
  with executeCallback_cb_token [of ident callbackRegistry h ctx args w] assms True show ?thesis
    by auto
next
  case False
  then obtain ps where ps: "params c = Some ps" "ps \<noteq> []" by auto
  with assms(2) have "toCallbackData c = ''_cb:'' @ ident @ '':'' @ JSON_stringify (JArr ps)"
    by (simp add: toCallbackData_def hash_text_def Let_def)
  with executeCallback_cb_args [of ident callbackRegistry h ctx ps args w] assms ps show ?thesis
    by simp
qed

lemma cb_round_trip:
  assumes "CHR '':'' \<notin> set (fn_name f)"
  shows "executeCallback (fst (cb reg f)) ctx
           (toCallbackData (curried_bind (snd (cb reg f)) A)) [] w
         = fn_call f ctx (map Json A) w"
proof -
  let ?h = "calculateFunctionHash f"
  let ?f = "f\<lparr>fn_hash := Some ?h\<rparr>"
  let ?c = "curried_bind (snd (cb reg f)) A"
  have b: "fst (cb reg f) ?h = Some ?f"
    by (simp add: cb_def Let_def)
  have o: "fn_hash (origin ?c) = Some ?h"
    by (simp add: cb_def Let_def curried_bind_def createCurried_def)
  have p: "params ?c = Some A"
    by (simp add: cb_def Let_def curried_bind_def createCurried_def)
  from render_execute [of "fst (cb reg f)" ?h ?f ?c ctx "[]" w]
    b o calculateFunctionHash_no_colon [OF assms] p
  show ?thesis by simp
qed

text \<open>
  For a token that carries arguments, \<open>storeCallbackData\<close> returns
  \<open>_ch:\<close> followed by the 8 hex characters of \<open>generateHash\<close>, and
  executing the returned token in the resulting state is executing the given
  token (\<open>storeCallbackData_resolves\<close>); storing the same token again changes
  nothing (\<open>storeCallbackData_idempotent\<close>).
\<close>

lemma storeCallbackData_resolves:
  assumes "splitCallbackData d = Inr (prefix, h, Some pj)" and "prefix \<noteq> ''_ch''"
  shows "fst (storeCallbackData d w) = Inr (''_ch:'' @ generateHash pj)"
    and "executeCallback callbackRegistry ctx (''_ch:'' @ generateHash pj) args
           (snd (storeCallbackData d w))
         = executeCallback callbackRegistry ctx d args (snd (storeCallbackData d w))"
proof -
  have nc: "CHR '':'' \<notin> set (generateHash pj)"
    by (rule hex_no_colon) (rule generateHash_hex)
  from assms show "fst (storeCallbackData d w) = Inr (''_ch:'' @ generateHash pj)"
    by (simp add: storeCallbackData_def Let_def)
  from assms splitCallbackData_cb(2) [OF nc]
  show "executeCallback callbackRegistry ctx (''_ch:'' @ generateHash pj) args
           (snd (storeCallbackData d w))
         = executeCallback callbackRegistry ctx d args (snd (storeCallbackData d w))"
    by (simp add: storeCallbackData_def executeCallback_def Let_def)
qed

lemma storeCallbackData_idempotent:
  "snd (storeCallbackData d (snd (storeCallbackData d w))) = snd (storeCallbackData d w)"
  by (simp add: storeCallbackData_def Let_def split: sum.splits option.splits)

lemma record_buttons_nonempty:
  assumes "\<forall>k d. reply k = Some d \<longrightarrow> d \<noteq> []"
  shows "\<forall>k d. record_buttons bs reply k = Some d \<longrightarrow> d \<noteq> []"
  using assms
proof (induction bs arbitrary: reply)
  case Nil
  then show ?case by simp
next
  case (Cons b bs)
  show ?case
  proof (cases "button_data b")
    case None
    with Cons show ?thesis by simp
  next
    case (Some x)
    show ?thesis
    proof (cases "x = []")
      case True
      with Some Cons show ?thesis by simp
    next
      case False
      with Cons.prems
      have "\<forall>k d. set_property reply (button_text b) x k = Some d \<longrightarrow> d \<noteq> []"
        by (simp add: set_property_def)
      then have "\<forall>k d. record_buttons bs (set_property reply (button_text b) x) k = Some d
                   \<longrightarrow> d \<noteq> []"
        by (rule Cons.IH)
      with Some False show ?thesis by simp
    qed
  qed
qed

section \<open>Properties of the wait protocol\<close>

lemma clearWaitState_wait [simp]: "sd_wait (session (clearWaitState w)) = None"
  by (simp add: clearWaitState_def Let_def split: option.splits)

lemma clearWaitState_next_ref [simp]: "next_ref (clearWaitState w) = next_ref w"
  by (simp add: clearWaitState_def Let_def split: option.splits)

lemma clearWaitState_effects:
  "effects (clearWaitState w) =
     effects w @ (case sd_wait (session w) of
                    None \<Rightarrow> []
                  | Some (r, ws) \<Rightarrow> if messageId ws \<noteq> 0 then [DeleteMessages [messageId ws]] else [])"
  by (simp add: clearWaitState_def Let_def split: option.splits)

text \<open>A state that the handler installs with \<open>wait\<close> has a new reference.\<close>

lemma wait_installs_fresh:
  assumes "sd_wait (session w) = Some (ref, ws)" and "ref < next_ref w"
      and "wait f a opts w = (Returned Undefined, w2)"
  shows "\<exists>st. sd_wait (session w2) = Some (next_ref w, st) \<and> next_ref w \<noteq> ref"
  using assms
  by (cases f; cases a) (auto simp: wait_def Let_def)

lemma wait_without_handler:
  "wait (FilterQuery q) ArgMissing opts w = (Threw TypeError, clearWaitState w)"
  by (simp add: wait_def Let_def)

section \<open>The example values, evaluated\<close>

lemma ex_greet_hash: "calculateFunctionHash ex_greet = ''greet164f65d''"
  by code_simp

lemma ex_retry_hash: "calculateFunctionHash ex_retry = ''retry0981529''"
  by code_simp

lemma ex_again_hash: "calculateFunctionHash ex_again = ''again6e9ff00''"
  by code_simp

lemma ex_open_path_hash:
  "calculateFunctionHashWithPath ex_open ''shop.open'' = ''shop.open238a4a338ccd''"
  by code_simp

lemma ex_anonymous_hash:
  "calculateFunctionHash ex_anonymous = ''555a78ebe19ff2105bc2''"
  by code_simp

lemma ex_colon_path_hash:
  "calculateFunctionHashWithPath ex_colon ''a:b'' = ''a:bd8160c9b3dc20''"
  by code_simp



lemma generateHash_one: "generateHash ''[1]'' = ''35dba5d7''"
  by code_simp

lemma ex_registry_greet:
  "ex_registry ''greet164f65d'' = Some (ex_greet\<lparr>fn_hash := Some ''greet164f65d''\<rparr>)"
  by (simp add: ex_registry_def cb_def ex_greet_hash ex_retry_hash ex_again_hash Let_def)

lemma ex_registry_retry:
  "ex_registry ''retry0981529'' = Some (ex_retry\<lparr>fn_hash := Some ''retry0981529''\<rparr>)"
  by (simp add: ex_registry_def cb_def ex_greet_hash ex_retry_hash ex_again_hash Let_def)

lemma ex_registry_again:
  "ex_registry ''again6e9ff00'' = Some (ex_again\<lparr>fn_hash := Some ''again6e9ff00''\<rparr>)"
  by (simp add: ex_registry_def cb_def ex_greet_hash ex_retry_hash ex_again_hash Let_def)

lemma ex_greet_cb_token: "toCallbackData ex_greet_cb = ''_cb:greet164f65d''"
  by (simp add: ex_greet_cb_def cb_def Let_def createCurried_def toCallbackData_def
      hash_text_def ex_greet_hash)

lemma ex_retry_cb_token: "toCallbackData ex_retry_cb = ''_cb:retry0981529''"
  by (simp add: ex_retry_cb_def cb_def Let_def createCurried_def toCallbackData_def
      hash_text_def ex_retry_hash)

lemma ex_again_cb_token: "toCallbackData ex_again_cb = ''_cb:again6e9ff00''"
  by (simp add: ex_again_cb_def cb_def Let_def createCurried_def toCallbackData_def
      hash_text_def ex_again_hash)

lemma toLowerCase_cancelwait: "toLowerCase ''/cancelwait'' = ''/cancelwait''"
  by (simp add: toLowerCase_def lower_char_def)

lemma toLowerCase_hello: "toLowerCase ''hello'' = ''hello''"
  by (simp add: toLowerCase_def lower_char_def)

lemma toLowerCase_CANCEL: "toLowerCase ''/CANCEL'' = ''/cancel''"
  by code_simp

lemma toLowerCase_CancelWait: "toLowerCase ''/CancelWait'' = ''/cancelwait''"
  by code_simp

lemma JSON_stringify_empty: "JSON_stringify (JArr []) = ''[]''"
  by simp

lemma JSON_stringify_one: "JSON_stringify (JArr [JNum 1]) = ''[1]''"
  by code_simp

lemma JSON_parse_one: "JSON_parse ''[1]'' = Inr (JArr [JNum 1])"
  by code_simp

lemma ex_retry_token:
  "executeCallback ex_registry ctx ''_cb:retry0981529'' args w
     = replying (Json (JBool False)) ctx args w"
proof -
  have "splitCallbackData ''_cb:retry0981529'' = Inr (''_cb'', ''retry0981529'', None)"
    using splitCallbackData_cb(1) [of "''retry0981529''"] by simp
  then show ?thesis
    by (simp add: executeCallback_def parse_params_def ex_registry_retry ex_retry_def)
qed

lemma ex_text_ctx_update [simp]: "update_text (ex_text_ctx t) = Some t"
  by (simp add: update_text_def ex_text_ctx_def)

lemma ex_text_ctx_has [simp]: "has (ex_text_ctx t) [''message:text'']"
  by (simp add: ex_text_ctx_def)

lemma ex_waiting_for_eq:
  "ex_waiting_for c =
     \<lparr>session = initialCallbackData
        \<lparr>sd_wait := Some (0, \<lparr>messageId = 5, handlerId = toCallbackData c,
                              filter_ws = Some [''message:text''],
                              cancelKeyword = ''/cancelwait'', timeoutId = 0\<rparr>)\<rparr>,
      effects = [], next_ref = 1\<rparr>"
  by (simp add: ex_waiting_for_def wait_def Let_def clearWaitState_def ex_world_def
      initialCallbackData_def toLowerCase_cancelwait)

lemma ex_retry_on_hello:
  "executeCallback ex_registry (ex_text_ctx ''hello'') ''_cb:retry0981529''
     [Json (JStr ''hello'')] (ex_waiting_for ex_retry_cb)
   = (Returned (Json (JBool False)),
      (ex_waiting_for ex_retry_cb)\<lparr>effects := [Reply (JSON_stringify (JArr [JStr ''hello'']))]\<rparr>)"
  using executeCallback_cb_token [of "''retry0981529''" ex_registry, OF _ ex_registry_retry]
  by (simp add: ex_retry_def replying_def to_json_def ex_waiting_for_eq)

lemma ex_greet_on_hello:
  "executeCallback ex_registry (ex_text_ctx ''hello'') ''_cb:greet164f65d''
     [Json (JStr ''hello'')] (ex_waiting_for ex_greet_cb)
   = (Returned Undefined,
      (ex_waiting_for ex_greet_cb)\<lparr>effects := [Reply (JSON_stringify (JArr [JStr ''hello'']))]\<rparr>)"
  using executeCallback_cb_token [of "''greet164f65d''" ex_registry, OF _ ex_registry_greet]
  by (simp add: ex_greet_def replying_def to_json_def ex_waiting_for_eq)

lemma ex_again_on_hello:
  "executeCallback ex_registry (ex_text_ctx ''hello'') ''_cb:again6e9ff00''
     [Json (JStr ''hello'')] (ex_waiting_for ex_again_cb)
   = (Returned Undefined,
      \<lparr>session = initialCallbackData
         \<lparr>sd_wait := Some (1, \<lparr>messageId = 0, handlerId = ''_cb:greet164f65d'',
                               filter_ws = Some [''message:text''],
                               cancelKeyword = ''/cancelwait'', timeoutId = 0\<rparr>)\<rparr>,
       effects = [DeleteMessages [5]], next_ref = 2\<rparr>)"
  using executeCallback_cb_token [of "''again6e9ff00''" ex_registry, OF _ ex_registry_again]
  by (simp add: ex_again_def ex_waiting_for_eq wait_def Let_def clearWaitState_def
      ex_greet_cb_token toLowerCase_cancelwait initialCallbackData_def)

lemma ex_shop_registered:
  "fst (cbs Map.empty ex_shop) ''shop.open238a4a338ccd''
     = Some (ex_open\<lparr>fn_hash := Some ''shop.open238a4a338ccd''\<rparr>)"
  by (simp add: cbs_def ex_shop_def Let_def ex_open_path_hash get_property_def
      object_prototype_def)



lemma ex_colon_registered:
  "cbs Map.empty ex_colon_tree =
     ([''a:bd8160c9b3dc20'' \<mapsto> ex_colon\<lparr>fn_hash := Some ''a:bd8160c9b3dc20''\<rparr>],
      Inr (CtObj [(''a:b'',
             CtFn (createCurried (ex_colon\<lparr>fn_hash := Some ''a:bd8160c9b3dc20''\<rparr>) None))]))"
  by (simp add: cbs_def ex_colon_tree_def Let_def ex_colon_path_hash get_property_def
      object_prototype_def)

lemma ex_colon_token:
  "toCallbackData (curried_bind
      (createCurried (ex_colon\<lparr>fn_hash := Some ''a:bd8160c9b3dc20''\<rparr>) None) [JNum 1])
     = ''_cb:a:bd8160c9b3dc20:[1]''"
  by (simp add: toCallbackData_def curried_bind_def createCurried_def hash_text_def Let_def
      JSON_stringify_one del: JSON_stringify.simps)

lemma ex_colon_split:
  "splitCallbackData ''_cb:a:bd8160c9b3dc20:[1]'' = Inr (''_cb'', ''a'', Some ''bd8160c9b3dc20:[1]'')"
  by (simp add: splitCallbackData_def split_limit_def slice_from_def)

lemma ex_store_greet:
  "storeCallbackData ''_cb:greet164f65d:[1]'' w =
     (Inr ''_ch:35dba5d7'',
      w\<lparr>session := (session w)\<lparr>sd_params := (sd_params (session w))
           (''35dba5d7'' \<mapsto> \<lparr>sp_hash = ''greet164f65d'', sp_params = ''[1]''\<rparr>)\<rparr>\<rparr>)"
  using splitCallbackData_cb(3) [of "''greet164f65d''" "''[1]''"]
  by (simp add: storeCallbackData_def Let_def generateHash_one)

lemma ex_store_retry:
  "storeCallbackData ''_cb:retry0981529:[1]'' w =
     (Inr ''_ch:35dba5d7'',
      w\<lparr>session := (session w)\<lparr>sd_params := (sd_params (session w))
           (''35dba5d7'' \<mapsto> \<lparr>sp_hash = ''retry0981529'', sp_params = ''[1]''\<rparr>)\<rparr>\<rparr>)"
  using splitCallbackData_cb(3) [of "''retry0981529''" "''[1]''"]
  by (simp add: storeCallbackData_def Let_def generateHash_one)

lemma ex_execute_stored:
  assumes "sd_params (session w) ''35dba5d7'' = Some \<lparr>sp_hash = h, sp_params = ''[1]''\<rparr>"
      and "ex_registry h = Some f"
  shows "executeCallback ex_registry ctx ''_ch:35dba5d7'' [] w = fn_call f ctx [Json (JNum 1)] w"
  using assms splitCallbackData_cb(2) [of "''35dba5d7''"]
  by (simp add: executeCallback_def parse_params_def JSON_parse_one spread_def)

text \<open>
  Identifiers that nobody registered and that name a property of
  \<open>Object.prototype\<close>: the token \<open>_cb:toString\<close> runs
  \<open>Object.prototype.toString\<close> and resolves to a string, which the
  \<open>callback_query\<close> handler takes for a handled update; the token
  \<open>_ch:constructor\<close> fails at the registry, with the identifier
  \<open>undefined\<close>.
\<close>

lemma ex_registry_inherited:
  "ex_registry ''toString'' = None"
  "ex_registry ''undefined'' = None"
  by (simp_all add: ex_registry_def cb_def ex_greet_hash ex_retry_hash ex_again_hash Let_def)

lemma ex_inherited_toString:
  "executeCallback ex_registry ctx ''_cb:toString'' [] ex_world
     = (Returned (Json (JStr ''[object Undefined]'')), ex_world)"
  using executeCallback_inherited_callback [of "''toString''" ex_registry ctx "[]" ex_world]
    ex_registry_inherited(1)
  by (simp add: object_prototype_def call_inherited_def)

lemma ex_inherited_toString_handled:
  "callback_query_handler ex_registry (ex_button_ctx ''_cb:toString'') ex_next ex_world
     = (Returned Undefined, ex_world)"
  using ex_inherited_toString [of "ex_button_ctx ''_cb:toString''"]
  by (simp add: callback_query_handler_def ex_button_ctx_def isCallbackData_def startsWith_def)

lemma ex_inherited_constructor:
  "executeCallback ex_registry ctx ''_ch:constructor'' [] ex_world
     = (Threw (UnknownCallback ''undefined''), ex_world)"
  using executeCallback_inherited_entry [of "''constructor''" ex_world ex_registry ctx "[]"]
    ex_registry_inherited(2)
  by (simp add: object_prototype_def ex_world_def initialCallbackData_def)

section \<open>C1: the round trip of a token\<close>

text \<open>
  Claim C1 says that the round trip holds for every registered handler.  A
  handler registered by \<open>cbs\<close> under the key \<open>a:b\<close> gets the identifier
  \<open>a:bd8160c9b3dc20\<close>; its token for the argument 1 is
  \<open>_cb:a:bd8160c9b3dc20:[1]\<close>, the splitter takes \<open>a\<close> for the
  identifier, and the execution fails with \<open>UnknownCallback\<close> where the
  handler itself would resolve.
\<close>

theorem C1_counterexample:
  "cbs Map.empty ex_colon_tree =
     ([''a:bd8160c9b3dc20'' \<mapsto> ex_colon\<lparr>fn_hash := Some ''a:bd8160c9b3dc20''\<rparr>],
      Inr (CtObj [(''a:b'',
             CtFn (createCurried (ex_colon\<lparr>fn_hash := Some ''a:bd8160c9b3dc20''\<rparr>) None))]))
   \<and> executeCallback (fst (cbs Map.empty ex_colon_tree)) (ex_button_ctx ''_cb:a:bd8160c9b3dc20:[1]'')
       (toCallbackData (curried_bind
          (createCurried (ex_colon\<lparr>fn_hash := Some ''a:bd8160c9b3dc20''\<rparr>) None) [JNum 1]))
       [] ex_world
     = (Threw (UnknownCallback ''a''), ex_world)
   \<and> fst (fn_call ex_colon (ex_button_ctx ''_cb:a:bd8160c9b3dc20:[1]'') [Json (JNum 1)] ex_world)
     = Returned Undefined"
proof -
  have e: "executeCallback (fst (cbs Map.empty ex_colon_tree)) (ex_button_ctx ''_cb:a:bd8160c9b3dc20:[1]'')
          ''_cb:a:bd8160c9b3dc20:[1]'' [] ex_world
        = (Threw (UnknownCallback ''a''), ex_world)"
    using executeCallback_lookup_failure [of "''_cb:a:bd8160c9b3dc20:[1]''" "''_cb''" "''a''"
        "Some ''bd8160c9b3dc20:[1]''" ex_world "fst (cbs Map.empty ex_colon_tree)"]
      ex_colon_split
    by (simp add: ex_colon_registered object_prototype_def)
  have r: "fst (fn_call ex_colon (ex_button_ctx ''_cb:a:bd8160c9b3dc20:[1]'') [Json (JNum 1)] ex_world)
             = Returned Undefined"
    by (simp add: ex_colon_def replying_def)
  from e have "executeCallback (fst (cbs Map.empty ex_colon_tree))
       (ex_button_ctx ''_cb:a:bd8160c9b3dc20:[1]'')
       (toCallbackData (curried_bind
          (createCurried (ex_colon\<lparr>fn_hash := Some ''a:bd8160c9b3dc20''\<rparr>) None) [JNum 1]))
       [] ex_world
     = (Threw (UnknownCallback ''a''), ex_world)"
    by (simp only: ex_colon_token)
  with ex_colon_registered r show ?thesis
    by blast
qed

text \<open>
  C1, as the code has it: for every handler \<open>h\<close> that the registry binds to
  its identifier, when the identifier contains no colon, and for every tuple
  \<open>A\<close> of JSON values, rendering \<open>curry(h)(A)\<close> with \<open>toCallbackData\<close>
  and executing the token with \<open>executeCallback\<close> is the call of \<open>h\<close> with
  the context and exactly the arguments \<open>A\<close>; the arguments may contain
  colons (\<open>JSON_roundtrip\<close> holds for every value).  \<open>cb\<close> gives such an
  identifier to every function whose name has no colon (\<open>cb_round_trip\<close>).
\<close>

theorem C1_round_trip:
  assumes bound: "callbackRegistry ident = Some h"
      and ident: "fn_hash h = Some ident"
      and colon: "CHR '':'' \<notin> set ident"
  shows "executeCallback callbackRegistry ctx
           (toCallbackData (curried_bind (createCurried h None) A)) [] w
         = fn_call h ctx (map Json A) w"
proof -
  let ?c = "curried_bind (createCurried h None) A"
  have o: "fn_hash (origin ?c) = Some ident"
    using ident by (simp add: curried_bind_def createCurried_def)
  have p: "params ?c = Some A"
    by (simp add: curried_bind_def createCurried_def)
  from render_execute [of callbackRegistry ident h ?c ctx "[]" w] bound o colon p show ?thesis
    by simp
qed

text \<open>The theorem at \<open>greet\<close> with the arguments \<open>"a:b"\<close> and 7.\<close>

theorem C1_witness:
  "executeCallback ex_registry (ex_button_ctx [])
     (toCallbackData (curried_bind (createCurried (ex_greet\<lparr>fn_hash := Some ''greet164f65d''\<rparr>) None)
        [JStr ''a:b'', JNum 7])) [] ex_world
   = (Returned Undefined,
      ex_world\<lparr>effects := [Reply (JSON_stringify (JArr [JStr ''a:b'', JNum 7]))]\<rparr>)"
proof -
  have i: "fn_hash (ex_greet\<lparr>fn_hash := Some ''greet164f65d''\<rparr>) = Some ''greet164f65d''"
    by simp
  have c: "CHR '':'' \<notin> set ''greet164f65d''"
    by simp
  from C1_round_trip [of ex_registry "''greet164f65d''" "ex_greet\<lparr>fn_hash := Some ''greet164f65d''\<rparr>"
      "ex_button_ctx []" "[JStr ''a:b'', JNum 7]" ex_world] ex_registry_greet i c
  show ?thesis
    by (simp add: ex_greet_def replying_def to_json_def ex_world_def del: JSON_stringify.simps)
qed

section \<open>C2: registering twice\<close>




section \<open>C3: lookup failures at dispatch\<close>

text \<open>
  Claim C3 says that the dispatcher swallows a lookup failure and falls
  through to \<open>next()\<close>.  Both dispatchers test the value that the execution
  resolves to, and \<open>handleText\<close> is meant to continue with \<open>next()\<close> when
  the execution failed; but \<open>executeCallback\<close> reports a lookup failure by
  throwing, and neither dispatcher has a \<open>try\<close> around the call.  For a key
  that is no property name of \<open>Object.prototype\<close>: a token whose identifier
  the registry does not hold makes \<open>executeCallback\<close> throw
  \<open>Callback ... not found in registry\<close>, a \<open>_ch\<close> token without its session
  entry makes it throw \<open>Session callback ... not found\<close>, the state stays as
  it was, and the \<open>callback_query\<close> handler and \<open>handleText\<close> reject with
  that error and do not run \<open>next\<close>.  (A key that names such a property is
  found by the lookup and nothing is thrown at that point:
  \<open>executeCallback_inherited_callback\<close>, \<open>executeCallback_inherited_entry\<close>.)
\<close>

theorem C3_lookup_failure_propagates:
  assumes "splitCallbackData d = Inr (prefix, key, rest)"
      and "key \<notin> set object_prototype"
      and "if prefix = ''_ch'' then sd_params (session w) key = None
           else callbackRegistry key = None"
      and "e = (if prefix = ''_ch'' then SessionCallbackNotFound key else UnknownCallback key)"
  shows "executeCallback callbackRegistry ctx d args w = (Threw e, w)
         \<and> (callbackQuery_data ctx = Some d \<and> isCallbackData (Some d)
              \<longrightarrow> callback_query_handler callbackRegistry ctx next w = (Threw e, w))
         \<and> (message_text ctx = Some t \<and> t \<noteq> [] \<and> sd_reply (session w) t = Some d \<and> d \<noteq> []
              \<longrightarrow> handleText callbackRegistry ctx next w = (Threw e, w))"
proof -
  have ex: "\<And>args. executeCallback callbackRegistry ctx d args w = (Threw e, w)"
    using executeCallback_lookup_failure [of d prefix key rest w callbackRegistry] assms by simp
  then show ?thesis
    by (simp add: callback_query_handler_def handleText_def)
qed

text \<open>
  The theorem at two button presses, one with an identifier that is not
  registered and one with a \<open>_ch\<close> token that has no session entry: the
  handler rejects, and the rest of the chain, which would have replied, is
  not run.
\<close>

theorem C3_witness:
  "callback_query_handler ex_registry (ex_button_ctx ''_cb:gone12345678'') ex_next ex_world
     = (Threw (UnknownCallback ''gone12345678''), ex_world)
   \<and> callback_query_handler ex_registry (ex_button_ctx ''_cb:gone12345678'') ex_next ex_world
     \<noteq> ex_next ex_world
   \<and> callback_query_handler ex_registry (ex_button_ctx ''_ch:0a1b2c3d'') ex_next ex_world
     = (Threw (SessionCallbackNotFound ''0a1b2c3d''), ex_world)
   \<and> callback_query_handler ex_registry (ex_button_ctx ''_ch:0a1b2c3d'') ex_next ex_world
     \<noteq> ex_next ex_world"
proof -
  have s1: "splitCallbackData ''_cb:gone12345678'' = Inr (''_cb'', ''gone12345678'', None)"
    using splitCallbackData_cb(1) [of "''gone12345678''"] by simp
  have s2: "splitCallbackData ''_ch:0a1b2c3d'' = Inr (''_ch'', ''0a1b2c3d'', None)"
    using splitCallbackData_cb(2) [of "''0a1b2c3d''"] by simp
  have n1: "''gone12345678'' \<notin> set object_prototype"
    and n2: "''0a1b2c3d'' \<notin> set object_prototype"
    by (simp_all add: object_prototype_def)
  have r: "ex_registry ''gone12345678'' = None"
    by (simp add: ex_registry_def cb_def ex_greet_hash ex_retry_hash ex_again_hash Let_def)
  have p: "sd_params (session ex_world) ''0a1b2c3d'' = None"
    by (simp add: ex_world_def initialCallbackData_def)
  have c1: "callbackQuery_data (ex_button_ctx ''_cb:gone12345678'') = Some ''_cb:gone12345678''
            \<and> isCallbackData (Some ''_cb:gone12345678'')"
    by (simp add: ex_button_ctx_def isCallbackData_def startsWith_def)
  have c2: "callbackQuery_data (ex_button_ctx ''_ch:0a1b2c3d'') = Some ''_ch:0a1b2c3d''
            \<and> isCallbackData (Some ''_ch:0a1b2c3d'')"
    by (simp add: ex_button_ctx_def isCallbackData_def startsWith_def)
  have e1: "callback_query_handler ex_registry (ex_button_ctx ''_cb:gone12345678'') ex_next ex_world
              = (Threw (UnknownCallback ''gone12345678''), ex_world)"
    using C3_lookup_failure_propagates [of "''_cb:gone12345678''" "''_cb''" "''gone12345678''" None
        ex_world ex_registry "UnknownCallback ''gone12345678''"
        "ex_button_ctx ''_cb:gone12345678''" "[]" ex_next] s1 n1 r c1
    by simp
  have e2: "callback_query_handler ex_registry (ex_button_ctx ''_ch:0a1b2c3d'') ex_next ex_world
              = (Threw (SessionCallbackNotFound ''0a1b2c3d''), ex_world)"
    using C3_lookup_failure_propagates [of "''_ch:0a1b2c3d''" "''_ch''" "''0a1b2c3d''" None
        ex_world ex_registry "SessionCallbackNotFound ''0a1b2c3d''"
        "ex_button_ctx ''_ch:0a1b2c3d''" "[]" ex_next] s2 n2 p c2
    by simp
  show ?thesis
    unfolding e1 e2 by (simp add: ex_next_def)
qed

section \<open>C4: the overflow store\<close>

text \<open>
  Claim C4 says that two calls with byte-identical argument JSON share one
  stored entry with no observable difference.  The key is the digest of the
  argument JSON alone.  Here a button for \<open>greet(1)\<close> and then a button for
  \<open>retry(1)\<close> are stored: both calls return \<open>_ch:35dba5d7\<close>; before the
  second call that token runs \<open>greet\<close>, after it the same token runs
  \<open>retry\<close>.
\<close>

theorem C4_shared_entry_across_handlers:
  "fst (storeCallbackData ''_cb:greet164f65d:[1]'' ex_world) = Inr ''_ch:35dba5d7''
   \<and> fst (storeCallbackData ''_cb:retry0981529:[1]''
            (snd (storeCallbackData ''_cb:greet164f65d:[1]'' ex_world))) = Inr ''_ch:35dba5d7''
   \<and> fst (executeCallback ex_registry (ex_button_ctx ''_ch:35dba5d7'') ''_ch:35dba5d7'' []
            (snd (storeCallbackData ''_cb:greet164f65d:[1]'' ex_world)))
       = fst (fn_call ex_greet (ex_button_ctx ''_ch:35dba5d7'') [Json (JNum 1)]
               (snd (storeCallbackData ''_cb:greet164f65d:[1]'' ex_world)))
   \<and> fst (executeCallback ex_registry (ex_button_ctx ''_ch:35dba5d7'') ''_ch:35dba5d7'' []
            (snd (storeCallbackData ''_cb:retry0981529:[1]''
                    (snd (storeCallbackData ''_cb:greet164f65d:[1]'' ex_world)))))
       = fst (fn_call ex_retry (ex_button_ctx ''_ch:35dba5d7'') [Json (JNum 1)]
               (snd (storeCallbackData ''_cb:retry0981529:[1]''
                       (snd (storeCallbackData ''_cb:greet164f65d:[1]'' ex_world)))))"
proof -
  let ?ctx = "ex_button_ctx ''_ch:35dba5d7''"
  let ?w1 = "snd (storeCallbackData ''_cb:greet164f65d:[1]'' ex_world)"
  let ?w2 = "snd (storeCallbackData ''_cb:retry0981529:[1]'' ?w1)"
  have p1: "sd_params (session ?w1) ''35dba5d7''
              = Some \<lparr>sp_hash = ''greet164f65d'', sp_params = ''[1]''\<rparr>"
    by (simp add: ex_store_greet)
  have p2: "sd_params (session ?w2) ''35dba5d7''
              = Some \<lparr>sp_hash = ''retry0981529'', sp_params = ''[1]''\<rparr>"
    by (simp add: ex_store_retry)
  have e1: "executeCallback ex_registry ?ctx ''_ch:35dba5d7'' [] ?w1
              = fn_call ex_greet ?ctx [Json (JNum 1)] ?w1"
    using ex_execute_stored [OF p1 ex_registry_greet] by simp
  have e2: "executeCallback ex_registry ?ctx ''_ch:35dba5d7'' [] ?w2
              = fn_call ex_retry ?ctx [Json (JNum 1)] ?w2"
    using ex_execute_stored [OF p2 ex_registry_retry] by simp
  show ?thesis
    by (simp only: e1 e2) (simp add: ex_store_greet ex_store_retry)
qed

text \<open>What the first button's token resolves to, before and after the second store.\<close>

theorem C4_observable_difference:
  "fst (executeCallback ex_registry (ex_button_ctx ''_ch:35dba5d7'') ''_ch:35dba5d7'' []
          (snd (storeCallbackData ''_cb:greet164f65d:[1]'' ex_world)))
     = Returned Undefined
   \<and> fst (executeCallback ex_registry (ex_button_ctx ''_ch:35dba5d7'') ''_ch:35dba5d7'' []
            (snd (storeCallbackData ''_cb:retry0981529:[1]''
                    (snd (storeCallbackData ''_cb:greet164f65d:[1]'' ex_world)))))
     = Returned (Json (JBool False))"
  using C4_shared_entry_across_handlers
  by (simp add: ex_greet_def ex_retry_def replying_def)

section \<open>C5: a new wait replaces the previous one\<close>

text \<open>
  C5: when \<open>wait\<close> is called with a handler while a wait state exists, the
  previous state is cleared first (the deletion of its anchor message is
  attempted when it has one, \<open>messageId \<noteq> 0\<close>), and then the new state, a
  fresh object that targets the handler, is stored in the one slot of the
  session: the new state is the only live one.
\<close>

theorem C5_wait_replaces_previous:
  assumes prev: "sd_wait (session w) = Some (r, old)"
      and shape: "case f of FilterCallback c \<Rightarrow> c = h | _ \<Rightarrow> a = ArgCallback h"
  shows "\<exists>st. wait f a opts w =
                (Returned Undefined,
                 (clearWaitState w)
                   \<lparr>session := (session (clearWaitState w))\<lparr>sd_wait := Some (next_ref w, st)\<rparr>,
                    next_ref := Suc (next_ref w)\<rparr>)
              \<and> handlerId st = toCallbackData h
              \<and> sd_wait (session (snd (wait f a opts w))) = Some (next_ref w, st)
              \<and> sd_wait (session (clearWaitState w)) = None
              \<and> effects (snd (wait f a opts w)) =
                  effects w @ (if messageId old \<noteq> 0 then [DeleteMessages [messageId old]] else [])"
  using assms
  by (cases f) (auto simp: wait_def Let_def clearWaitState_effects)

text \<open>
  The theorem at a second \<open>wait\<close>, for \<open>greet\<close>, after a wait for
  \<open>retry\<close> that is anchored at message 5.
\<close>

theorem C5_witness:
  "\<exists>st. sd_wait (session (snd (wait (FilterQuery ''message:text'') (ArgCallback ex_greet_cb) None
                                   (ex_waiting_for ex_retry_cb)))) = Some (1, st)
         \<and> handlerId st = ''_cb:greet164f65d''
         \<and> effects (snd (wait (FilterQuery ''message:text'') (ArgCallback ex_greet_cb) None
                                   (ex_waiting_for ex_retry_cb))) = [DeleteMessages [5]]"
proof -
  let ?old = "\<lparr>messageId = 5, handlerId = toCallbackData ex_retry_cb,
               filter_ws = Some [''message:text''],
               cancelKeyword = ''/cancelwait'', timeoutId = 0\<rparr>"
  have prev: "sd_wait (session (ex_waiting_for ex_retry_cb)) = Some (0, ?old)"
    by (simp add: ex_waiting_for_eq)
  have shape: "case FilterQuery ''message:text'' of
                 FilterCallback c \<Rightarrow> c = ex_greet_cb
               | _ \<Rightarrow> ArgCallback ex_greet_cb = ArgCallback ex_greet_cb"
    by simp
  from C5_wait_replaces_previous [OF prev shape, of None]
  show ?thesis
    by (auto simp: ex_waiting_for_eq ex_greet_cb_token)
qed

section \<open>C6: resolution of a wait\<close>

text \<open>
  C6: after the filter has matched (and the text is not the cancel keyword),
  the target handler is executed with the text of the update.  If it
  resolves to exactly \<open>false\<close>, nothing more is changed and the update is
  reported handled.  On any other outcome, a thrown error among them, the
  update is reported handled and the wait state is cleared when the session
  still holds the object read at entry; a state with another reference, which
  the handler has installed, is left in place.
\<close>

theorem C6_wait_resolution:
  assumes entry: "sd_wait (session w) = Some (ref, ws)"
      and not_cancel: "case update_text ctx of
                         None \<Rightarrow> True
                       | Some t \<Rightarrow> t = [] \<or> toLowerCase t \<noteq> cancelKeyword ws"
      and matches: "case filter_ws ws of None \<Rightarrow> True | Some f \<Rightarrow> has ctx f"
      and target: "handlerId ws \<noteq> []"
      and invoked: "executeCallback callbackRegistry ctx (handlerId ws)
                      [text_val (update_text ctx)] w = (out, w')"
  shows "(out = Returned (Json (JBool False))
            \<longrightarrow> handleWaitResponse callbackRegistry ctx w = (True, w'))
         \<and> (out \<noteq> Returned (Json (JBool False)) \<and> (\<exists>ws'. sd_wait (session w') = Some (ref, ws'))
            \<longrightarrow> handleWaitResponse callbackRegistry ctx w = (True, clearWaitState w')
                \<and> sd_wait (session (clearWaitState w')) = None)
         \<and> (out \<noteq> Returned (Json (JBool False))
              \<and> (\<exists>ref' ws'. sd_wait (session w') = Some (ref', ws') \<and> ref' \<noteq> ref)
            \<longrightarrow> handleWaitResponse callbackRegistry ctx w = (True, w'))
         \<and> (out \<noteq> Returned (Json (JBool False)) \<and> sd_wait (session w') = None
            \<longrightarrow> handleWaitResponse callbackRegistry ctx w = (True, w'))"
proof -
  have head: "handleWaitResponse callbackRegistry ctx w =
                (let result = (case out of Threw err \<Rightarrow> Json (JBool True) | Returned v \<Rightarrow> v)
                 in if result = Json (JBool False) then (True, w')
                    else (True, clear_if_same ref w'))"
    using entry not_cancel matches target invoked
    by (auto simp: handleWaitResponse_def Let_def split: option.splits)
  show ?thesis
    unfolding head
    by (cases out) (auto simp: clear_if_same_def Let_def)
qed

text \<open>
  The theorem at the text \<open>hello\<close> for three handlers: \<open>retry\<close> resolves
  to \<open>false\<close> and the state stays; \<open>greet\<close> resolves to \<open>undefined\<close> and
  the state is cleared; \<open>again\<close> calls \<open>wait\<close> and its new state stays.
\<close>

theorem C6_witness:
  "handleWaitResponse ex_registry (ex_text_ctx ''hello'') (ex_waiting_for ex_retry_cb)
     = (True, (ex_waiting_for ex_retry_cb)
                \<lparr>effects := [Reply (JSON_stringify (JArr [JStr ''hello'']))]\<rparr>)
   \<and> handleWaitResponse ex_registry (ex_text_ctx ''hello'') (ex_waiting_for ex_greet_cb)
     = (True, clearWaitState ((ex_waiting_for ex_greet_cb)
                \<lparr>effects := [Reply (JSON_stringify (JArr [JStr ''hello'']))]\<rparr>))
   \<and> (\<exists>st. sd_wait (session (snd (handleWaitResponse ex_registry (ex_text_ctx ''hello'')
                                        (ex_waiting_for ex_again_cb)))) = Some (1, st)
           \<and> handlerId st = ''_cb:greet164f65d'')"
proof -
  let ?ctx = "ex_text_ctx ''hello''"
  have a: "sd_wait (session (ex_waiting_for ex_retry_cb)) =
             Some (0, \<lparr>messageId = 5, handlerId = ''_cb:retry0981529'',
                        filter_ws = Some [''message:text''],
                        cancelKeyword = ''/cancelwait'', timeoutId = 0\<rparr>)"
    and b: "sd_wait (session (ex_waiting_for ex_greet_cb)) =
             Some (0, \<lparr>messageId = 5, handlerId = ''_cb:greet164f65d'',
                        filter_ws = Some [''message:text''],
                        cancelKeyword = ''/cancelwait'', timeoutId = 0\<rparr>)"
    and c: "sd_wait (session (ex_waiting_for ex_again_cb)) =
             Some (0, \<lparr>messageId = 5, handlerId = ''_cb:again6e9ff00'',
                        filter_ws = Some [''message:text''],
                        cancelKeyword = ''/cancelwait'', timeoutId = 0\<rparr>)"
    by (simp_all add: ex_waiting_for_eq ex_retry_cb_token ex_greet_cb_token ex_again_cb_token)
  have "handleWaitResponse ex_registry ?ctx (ex_waiting_for ex_retry_cb)
          = (True, (ex_waiting_for ex_retry_cb)
                     \<lparr>effects := [Reply (JSON_stringify (JArr [JStr ''hello'']))]\<rparr>)"
    using C6_wait_resolution [OF a, of ?ctx ex_registry] ex_retry_on_hello
    by (simp add: toLowerCase_hello text_val_def)
  moreover
  have "handleWaitResponse ex_registry ?ctx (ex_waiting_for ex_greet_cb)
          = (True, clearWaitState ((ex_waiting_for ex_greet_cb)
                     \<lparr>effects := [Reply (JSON_stringify (JArr [JStr ''hello'']))]\<rparr>))"
    using C6_wait_resolution [OF b, of ?ctx ex_registry] ex_greet_on_hello
    by (simp add: toLowerCase_hello text_val_def ex_waiting_for_eq)
  moreover
  have "handleWaitResponse ex_registry ?ctx (ex_waiting_for ex_again_cb)
          = (True, \<lparr>session = initialCallbackData
         \<lparr>sd_wait := Some (1, \<lparr>messageId = 0, handlerId = ''_cb:greet164f65d'',
                               filter_ws = Some [''message:text''],
                               cancelKeyword = ''/cancelwait'', timeoutId = 0\<rparr>)\<rparr>,
       effects = [DeleteMessages [5]], next_ref = 2\<rparr>)"
    using C6_wait_resolution [OF c, of ?ctx ex_registry] ex_again_on_hello
    by (simp add: toLowerCase_hello text_val_def)
  ultimately show ?thesis by simp
qed

section \<open>C7: the cancel keyword\<close>

text \<open>
  Claim C7 says that, after a \<open>wait\<close> without a \<open>cancelKeyword\<close> option,
  the text \<open>/CANCEL\<close> clears the wait state and nothing reaches the target
  handler.  The default keyword is \<open>/cancelwait\<close>: the text \<open>/CANCEL\<close> is
  forwarded to the handler (here \<open>retry\<close>, which replies with it and keeps
  the wait) and the state is not cleared.
\<close>

theorem C7_counterexample:
  "handleWaitResponse ex_registry (ex_text_ctx ''/CANCEL'') (ex_waiting_for ex_retry_cb)
     = (True, (ex_waiting_for ex_retry_cb)
                \<lparr>effects := [Reply (JSON_stringify (JArr [JStr ''/CANCEL'']))]\<rparr>)
   \<and> sd_wait (session (snd (handleWaitResponse ex_registry (ex_text_ctx ''/CANCEL'')
                               (ex_waiting_for ex_retry_cb)))) \<noteq> None
   \<and> handleWaitResponse ex_registry (ex_text_ctx ''/CANCEL'') (ex_waiting_for ex_retry_cb)
     \<noteq> (True, clearWaitState (ex_waiting_for ex_retry_cb))"
proof -
  have e: "executeCallback ex_registry (ex_text_ctx ''/CANCEL'') ''_cb:retry0981529''
             [Json (JStr ''/CANCEL'')] (ex_waiting_for ex_retry_cb)
           = (Returned (Json (JBool False)),
              (ex_waiting_for ex_retry_cb)
                \<lparr>effects := [Reply (JSON_stringify (JArr [JStr ''/CANCEL'']))]\<rparr>)"
    using executeCallback_cb_token [of "''retry0981529''" ex_registry, OF _ ex_registry_retry]
    by (simp add: ex_retry_def replying_def to_json_def ex_waiting_for_eq)
  have "handleWaitResponse ex_registry (ex_text_ctx ''/CANCEL'') (ex_waiting_for ex_retry_cb)
     = (True, (ex_waiting_for ex_retry_cb)
                \<lparr>effects := [Reply (JSON_stringify (JArr [JStr ''/CANCEL'']))]\<rparr>)"
    using e
    by (simp add: handleWaitResponse_def ex_waiting_for_eq ex_retry_cb_token
        toLowerCase_CANCEL text_val_def)
  then show ?thesis
    by (simp add: ex_waiting_for_eq clearWaitState_def)
qed

text \<open>
  C7, as the code has it: for a wait state created by a \<open>wait\<close> call that
  omitted the \<open>cancelKeyword\<close> option, an inbound text that is
  case-insensitively equal to \<open>/cancelwait\<close> clears the wait state, the
  update is reported handled and nothing is forwarded to the target handler
  (the result does not depend on the registry): the cancel keyword is a
  case-insensitive exact match with the default \<open>/cancelwait\<close>.
\<close>

theorem C7_default_cancel_keyword:
  assumes created: "wait f a opts w0 = (Returned Undefined, w)"
      and omitted: "case f of
                      FilterCallback _ \<Rightarrow>
                        (case a of ArgOptions opt \<Rightarrow> wo_cancelKeyword opt = None | _ \<Rightarrow> True)
                    | _ \<Rightarrow> (case opts of Some opt \<Rightarrow> wo_cancelKeyword opt = None | None \<Rightarrow> True)"
      and inbound: "update_text ctx = Some t"
      and equal: "toLowerCase t = ''/cancelwait''"
  shows "handleWaitResponse callbackRegistry ctx w = (True, clearWaitState w)
         \<and> sd_wait (session (clearWaitState w)) = None"
proof -
  from created omitted
  have "\<exists>ref st. sd_wait (session w) = Some (ref, st) \<and> cancelKeyword st = ''/cancelwait''"
    by (cases f; cases a; cases opts)
       (auto simp: wait_def Let_def toLowerCase_cancelwait split: option.splits)
  then obtain ref st where st: "sd_wait (session w) = Some (ref, st)"
    and kw: "cancelKeyword st = ''/cancelwait''"
    by blast
  from equal have "t \<noteq> []"
    by (auto simp: toLowerCase_def)
  with st kw inbound equal show ?thesis
    by (simp add: handleWaitResponse_def)
qed

text \<open>The theorem at the text \<open>/CancelWait\<close>.\<close>

theorem C7_witness:
  "handleWaitResponse ex_registry (ex_text_ctx ''/CancelWait'') (ex_waiting_for ex_retry_cb)
     = (True, clearWaitState (ex_waiting_for ex_retry_cb))
   \<and> sd_wait (session (clearWaitState (ex_waiting_for ex_retry_cb))) = None
   \<and> effects (clearWaitState (ex_waiting_for ex_retry_cb)) = [DeleteMessages [5]]"
proof -
  have created: "wait (FilterCallback ex_retry_cb)
                   (ArgOptions \<lparr>wo_messageId = Some 5, wo_cancelKeyword = None\<rparr>) None ex_world
                 = (Returned Undefined, ex_waiting_for ex_retry_cb)"
    by (simp add: ex_waiting_for_def wait_def Let_def)
  from C7_default_cancel_keyword [OF created _ ex_text_ctx_update toLowerCase_CancelWait,
      of ex_registry]
  show ?thesis
    by (simp add: clearWaitState_effects ex_waiting_for_eq)
qed

section \<open>C8: the splitter on malformed input\<close>

text \<open>
  Claim C8 says that the splitter returns the empty triple for every token
  with a prefix of the wrong shape, never raises and is total.  The first
  part holds (\<open>splitCallbackData_malformed\<close>).  At the input \<open>_cb\<close>, which
  has no colon, the prefix passes the shape check, \<open>hash\<close> is \<open>undefined\<close>
  and \<open>hash.length\<close> raises a \<open>TypeError\<close>.
\<close>

theorem C8_splitCallbackData_raises_without_colon:
  "splitCallbackData ''_cb'' = Inl TypeError"
  by (simp add: splitCallbackData_def split_limit_def)

text \<open>
  The raise reaches the callers of the splitter: \<open>storeCallbackData\<close> and
  \<open>executeCallback\<close> fail with the same error.
\<close>

theorem C8_raise_reaches_storeCallbackData:
  "splitCallbackData ''_cb'' = Inl TypeError
   \<and> fst (storeCallbackData ''_cb'' ex_world) = Inl TypeError
   \<and> fst (executeCallback ex_registry (ex_button_ctx ''_cb'') ''_cb'' [] ex_world) = Threw TypeError"
  using C8_splitCallbackData_raises_without_colon
  by (simp add: storeCallbackData_def executeCallback_def)

section \<open>C9: the shape of identifiers\<close>

text \<open>
  Claim C9 says that every identifier of the hasher has about 12 characters
  and matches \<open>[A-Za-z0-9]{~8-16}\<close>.  The \<open>cbs\<close> example of the source,
  \<open>{ shop: { open } }\<close>, registers its handler under
  \<open>shop.open238a4a338ccd\<close>: 21 characters with a dot.  An anonymous handler
  registered with \<open>cb\<close> gets 20 digest characters and no readable prefix.
\<close>

theorem C9_counterexample:
  "fst (cbs Map.empty ex_shop) ''shop.open238a4a338ccd''
     = Some (ex_open\<lparr>fn_hash := Some ''shop.open238a4a338ccd''\<rparr>)
   \<and> calculateFunctionHashWithPath ex_open ''shop.open'' = ''shop.open238a4a338ccd''
   \<and> \<not> grammar_identifier (calculateFunctionHashWithPath ex_open ''shop.open'')
   \<and> calculateFunctionHash ex_anonymous = ''555a78ebe19ff2105bc2''
   \<and> \<not> grammar_identifier (calculateFunctionHash ex_anonymous)"
  by (simp add: ex_shop_registered ex_open_path_hash ex_anonymous_hash grammar_identifier_def)

text \<open>
  C9, as the code has it: the identifier derived from the source text of a
  named handler is the name truncated to 8 characters followed by at least 4
  lowercase hex digest characters, 12 characters in all, and it matches
  \<open>[A-Za-z0-9]{8-16}\<close> when the name is alphanumeric.  The identifier
  derived from a non-empty registration path is the last 12 characters of the
  dotted path followed by \<open>max(4, 16 - fn.name.length)\<close> hex digest
  characters, 5 to 28 characters in all; it is alphanumeric when the path is.
\<close>

theorem C9_identifier_shape:
  "(fn_name fn \<noteq> [] \<longrightarrow>
      (\<exists>d. calculateFunctionHash fn = take 8 (fn_name fn) @ d
            \<and> list_all hex_char d \<and> 4 \<le> length d)
      \<and> length (calculateFunctionHash fn) = 12
      \<and> (list_all alphanumeric (fn_name fn) \<longrightarrow> grammar_identifier (calculateFunctionHash fn)))
   \<and> (path \<noteq> [] \<longrightarrow>
      (\<exists>d. calculateFunctionHashWithPath fn path = slice_last 12 path @ d
            \<and> list_all hex_char d
            \<and> length d = nat (max 4 (16 - int (length (fn_name fn)))))
      \<and> 5 \<le> length (calculateFunctionHashWithPath fn path)
      \<and> length (calculateFunctionHashWithPath fn path) \<le> 28
      \<and> (list_all alphanumeric path
            \<longrightarrow> list_all alphanumeric (calculateFunctionHashWithPath fn path)))"
proof (intro conjI impI)
  assume n: "fn_name fn \<noteq> []"
  let ?d = "take (nat (max 4 (12 - int (length (fn_name fn))))) (md5Hex (fn_source fn))"
  have eq: "calculateFunctionHash fn = take 8 (fn_name fn) @ ?d"
    using n by (simp add: calculateFunctionHash_def Let_def)
  have hex: "list_all hex_char ?d"
    by (rule list_all_take) (rule md5Hex_hex)
  have len: "length ?d = nat (max 4 (12 - int (length (fn_name fn))))"
    by (simp add: length_md5Hex)
  from eq hex len
  show "\<exists>d. calculateFunctionHash fn = take 8 (fn_name fn) @ d
            \<and> list_all hex_char d \<and> 4 \<le> length d"
    by (intro exI [of _ ?d]) simp
  from n have "0 < length (fn_name fn)" by simp
  then have "min (length (fn_name fn)) 8 + nat (max 4 (12 - int (length (fn_name fn)))) = 12"
    by arith
  then show l12: "length (calculateFunctionHash fn) = 12"
    unfolding eq length_append len by simp
  assume a: "list_all alphanumeric (fn_name fn)"
  have "list_all alphanumeric ?d"
    using hex by (rule list_all_mono) (rule hex_char_alphanumeric)
  with a have "list_all alphanumeric (calculateFunctionHash fn)"
    by (simp add: eq list_all_take)
  with l12 show "grammar_identifier (calculateFunctionHash fn)"
    by (simp add: grammar_identifier_def)
next
  assume p: "path \<noteq> []"
  let ?d = "take (nat (max 4 (16 - int (length (fn_name fn))))) (md5Hex path)"
  have eq: "calculateFunctionHashWithPath fn path = slice_last 12 path @ ?d"
    using p by (simp add: calculateFunctionHashWithPath_def Let_def)
  have hex: "list_all hex_char ?d"
    by (rule list_all_take) (rule md5Hex_hex)
  have len: "length ?d = nat (max 4 (16 - int (length (fn_name fn))))"
    by (simp add: length_md5Hex)
  from eq hex len
  show "\<exists>d. calculateFunctionHashWithPath fn path = slice_last 12 path @ d
            \<and> list_all hex_char d
            \<and> length d = nat (max 4 (16 - int (length (fn_name fn))))"
    by (intro exI [of _ ?d]) simp
  from p have "0 < length path" by simp
  then have "1 \<le> length path - (length path - 12) \<and> length path - (length path - 12) \<le> 12"
    by arith
  then have sl: "1 \<le> length (slice_last 12 path) \<and> length (slice_last 12 path) \<le> 12"
    by (simp add: slice_last_def)
  have dl: "4 \<le> nat (max 4 (16 - int (length (fn_name fn))))
            \<and> nat (max 4 (16 - int (length (fn_name fn)))) \<le> 16"
    by arith
  from sl dl show "5 \<le> length (calculateFunctionHashWithPath fn path)"
    unfolding eq length_append len by arith
  from sl dl show "length (calculateFunctionHashWithPath fn path) \<le> 28"
    unfolding eq length_append len by arith
  assume a: "list_all alphanumeric path"
  have "list_all alphanumeric ?d"
    using hex by (rule list_all_mono) (rule hex_char_alphanumeric)
  with a show "list_all alphanumeric (calculateFunctionHashWithPath fn path)"
    by (simp add: eq slice_last_def list_all_drop)
qed

text \<open>The theorem at \<open>greet\<close> and at the path \<open>shop.open\<close>.\<close>

theorem C9_witness:
  "length (calculateFunctionHash ex_greet) = 12
   \<and> grammar_identifier (calculateFunctionHash ex_greet)
   \<and> length (calculateFunctionHashWithPath ex_open ''shop.open'') \<le> 28"
proof -
  have "fn_name ex_greet \<noteq> []" and "list_all alphanumeric (fn_name ex_greet)"
    by (simp_all add: ex_greet_def alphanumeric_def)
  with C9_identifier_shape [of ex_greet "''shop.open''"]
  have "length (calculateFunctionHash ex_greet) = 12
        \<and> grammar_identifier (calculateFunctionHash ex_greet)"
    by simp
  moreover from C9_identifier_shape [of ex_open "''shop.open''"]
  have "length (calculateFunctionHashWithPath ex_open ''shop.open'') \<le> 28"
    by simp
  ultimately show ?thesis by simp
qed

section \<open>C10: plain-text dispatch\<close>

text \<open>
  Claim C10 says that \<open>handleText\<close> executes the stored token when the text
  matches an entry of the reply table, that it falls through to \<open>next()\<close> if
  and only if the execution resolves to exactly \<open>false\<close>, and that
  \<open>next()\<close> is invoked when no entry matches.  The code does so for every
  non-empty text except the property names of \<open>Object.prototype\<close>.  For
  such a text, \<open>constructor\<close> say, and a table without an entry for it,
  \<open>reply[text]\<close> is the inherited property, which is truthy;
  \<open>executeCallback\<close> is called with it, \<open>callbackData.split\<close> is not a
  function, and \<open>handleText\<close> rejects with a \<open>TypeError\<close> without invoking
  \<open>next()\<close>.  The theorem has the three cases: an entry with a non-empty
  token (an error of the execution is passed on, any value other than
  \<open>false\<close> ends the processing); no entry and no inherited property; no
  entry and an inherited property.
\<close>

theorem C10_handleText:
  assumes "message_text ctx = Some text" and "text \<noteq> []"
  shows "(sd_reply (session w) text = Some d \<and> d \<noteq> []
            \<longrightarrow> handleText callbackRegistry ctx next w =
                 (case executeCallback callbackRegistry ctx d [] w of
                    (Threw e, w') \<Rightarrow> (Threw e, w')
                  | (Returned v, w') \<Rightarrow>
                      if v = Json (JBool False) then next w' else (Returned Undefined, w')))
         \<and> (sd_reply (session w) text = None \<and> text \<notin> set object_prototype
            \<longrightarrow> handleText callbackRegistry ctx next w = next w)
         \<and> (sd_reply (session w) text = None \<and> text \<in> set object_prototype
            \<longrightarrow> handleText callbackRegistry ctx next w = (Threw TypeError, w))"
  using assms
  by (auto simp: handleText_def get_property_def split: prod.splits outcome.splits)

text \<open>
  The theorem at a reply table with the button \<open>Menu\<close>: the handler
  resolves to \<open>false\<close> and the chain goes on after the handler's reply; the
  text \<open>Other\<close> is no key and goes to the chain at once; the text
  \<open>constructor\<close> is no key either, and the chain is not run.
\<close>

theorem C10_witness:
  "handleText ex_registry (ex_text_ctx ''Menu'') ex_next
     (ex_world\<lparr>session := initialCallbackData\<lparr>sd_reply := [''Menu'' \<mapsto> ''_cb:retry0981529'']\<rparr>\<rparr>)
   = ex_next
       (ex_world\<lparr>session := initialCallbackData\<lparr>sd_reply := [''Menu'' \<mapsto> ''_cb:retry0981529'']\<rparr>,
                 effects := [Reply ''[]'']\<rparr>)
   \<and> handleText ex_registry (ex_text_ctx ''Other'') ex_next
     (ex_world\<lparr>session := initialCallbackData\<lparr>sd_reply := [''Menu'' \<mapsto> ''_cb:retry0981529'']\<rparr>\<rparr>)
   = ex_next
       (ex_world\<lparr>session := initialCallbackData\<lparr>sd_reply := [''Menu'' \<mapsto> ''_cb:retry0981529'']\<rparr>\<rparr>)
   \<and> handleText ex_registry (ex_text_ctx ''constructor'') ex_next
     (ex_world\<lparr>session := initialCallbackData\<lparr>sd_reply := [''Menu'' \<mapsto> ''_cb:retry0981529'']\<rparr>\<rparr>)
   = (Threw TypeError,
      ex_world\<lparr>session := initialCallbackData\<lparr>sd_reply := [''Menu'' \<mapsto> ''_cb:retry0981529'']\<rparr>\<rparr>)
   \<and> handleText ex_registry (ex_text_ctx ''constructor'') ex_next
     (ex_world\<lparr>session := initialCallbackData\<lparr>sd_reply := [''Menu'' \<mapsto> ''_cb:retry0981529'']\<rparr>\<rparr>)
   \<noteq> ex_next
       (ex_world\<lparr>session := initialCallbackData\<lparr>sd_reply := [''Menu'' \<mapsto> ''_cb:retry0981529'']\<rparr>\<rparr>)"
proof -
  let ?w = "ex_world\<lparr>session := initialCallbackData\<lparr>sd_reply := [''Menu'' \<mapsto> ''_cb:retry0981529'']\<rparr>\<rparr>"
  have a: "message_text (ex_text_ctx ''Menu'') = Some ''Menu''"
    and b: "message_text (ex_text_ctx ''Other'') = Some ''Other''"
    and k: "message_text (ex_text_ctx ''constructor'') = Some ''constructor''"
    by (simp_all add: ex_text_ctx_def)
  have c: "sd_reply (session ?w) ''Menu'' = Some ''_cb:retry0981529''"
    and d: "sd_reply (session ?w) ''Other'' = None"
    and l: "sd_reply (session ?w) ''constructor'' = None"
    by simp_all
  have m: "''Other'' \<notin> set object_prototype"
    and n: "''constructor'' \<in> set object_prototype"
    by (simp_all add: object_prototype_def)
  have e: "executeCallback ex_registry (ex_text_ctx ''Menu'') ''_cb:retry0981529'' [] ?w
             = (Returned (Json (JBool False)), ?w\<lparr>effects := [Reply ''[]'']\<rparr>)"
    by (simp add: ex_retry_token replying_def ex_world_def)
  from C10_handleText [OF a, of ?w "''_cb:retry0981529''" ex_registry ex_next] c e
  have 1: "handleText ex_registry (ex_text_ctx ''Menu'') ex_next ?w
          = ex_next (?w\<lparr>effects := [Reply ''[]'']\<rparr>)"
    by simp
  from C10_handleText [OF b, of ?w "[]" ex_registry ex_next] d m
  have 2: "handleText ex_registry (ex_text_ctx ''Other'') ex_next ?w = ex_next ?w"
    by simp
  from C10_handleText [OF k, of ?w "[]" ex_registry ex_next] l n
  have 3: "handleText ex_registry (ex_text_ctx ''constructor'') ex_next ?w = (Threw TypeError, ?w)"
    by simp
  have 4: "(Threw TypeError, ?w) \<noteq> ex_next ?w"
    by (simp add: ex_next_def)
  from 1 2 3 4 show ?thesis
    by simp
qed

end
